theory Spec2Isabelle
  imports Main "HOL-Library.AList" "HOL-Library.List_Lexorder" "HOL-Library.Char_ord"
begin

section \<open>The messaging client of \<^verbatim>\<open>messaging/rabbitmq\<close>\<close>

text \<open>
  The development embeds \<^verbatim>\<open>publisher.go\<close> and \<^verbatim>\<open>consumer.go\<close>.

  \<^item> A struct is a record; the fields of \<^verbatim>\<open>Publisher\<close> carry the prefix \<open>p_\<close> and those
    of \<^verbatim>\<open>Consumer\<close> the prefix \<open>c_\<close>, since both structs use the same field names.
  \<^item> A Go \<^verbatim>\<open>error\<close> result is an \<open>error option\<close>: \<open>None\<close> is \<^verbatim>\<open>nil\<close>.
  \<^item> The broker and the AMQP client library are not part of the repository. What they
    answer to a call is an input of the model: a record \<open>broker\<close> of answers for the AMQP
    calls.
  \<^item> \<^verbatim>\<open>json.Marshal\<close> and \<^verbatim>\<open>json.Unmarshal\<close> are function parameters of the code that calls
    them, so that what is proved of that code holds for every codec. The codec itself is
    modelled from the documentation of \<^verbatim>\<open>encoding/json\<close>, on JSON values.
  \<^item> A connection or channel is the number under which it was opened. A connection and
    the channel opened on it carry the same number.
  \<^item> A goroutine is a task in a task list. A section of code that runs under the mutex
    is one atomic step of its task; a schedule is a list of events.
  \<^item> The logger is left out, except for the lines \<^verbatim>\<open>PublishEventWithConfig\<close> writes.
\<close>

subsection \<open>Errors, durations, broker answers\<close>

datatype error =
    ErrDial                 \<comment> \<open>"failed to connect to RabbitMQ"\<close>
  | ErrChannel              \<comment> \<open>"failed to create channel"\<close>
  | ErrQos                  \<comment> \<open>"failed to set QoS"\<close>
  | ErrExchangeDeclare      \<comment> \<open>"failed to declare exchange"\<close>
  | ErrQueueDeclare         \<comment> \<open>"failed to declare queue"\<close>
  | ErrNotConnected         \<comment> \<open>"not connected to RabbitMQ"\<close>
  | ErrQueueBind            \<comment> \<open>"failed to bind queue to exchange"\<close>
  | ErrConsume              \<comment> \<open>"failed to consume from queue"\<close>
  | ErrSerialize            \<comment> \<open>"failed to serialize event"\<close>
  | ErrPublish              \<comment> \<open>"failed to publish message"\<close>
  | ErrJSON string          \<comment> \<open>an error of \<^verbatim>\<open>encoding/json\<close>\<close>
  | ErrAMQP string          \<comment> \<open>an error of the AMQP library\<close>
  | ErrHandler string       \<comment> \<open>an error returned by an application handler\<close>

text \<open>\<^verbatim>\<open>time.Duration\<close> counts nanoseconds in an \<^verbatim>\<open>int64\<close>. The only arithmetic on it is
  the doubling of a value of at most 30 seconds, far below \<open>2^63\<close>, so \<open>int\<close> is exact.\<close>

type_synonym duration = int

definition second :: duration where
  "second = 1000000000"

text \<open>An instant of the clock, as the text that stands for it in a message (in the
  format of RFC 3339, see below).\<close>

type_synonym time = string

text \<open>The answers of the AMQP library to the calls one atomic section makes. Each field
  says whether the call of that name succeeds.\<close>

record broker =
  dial_ok :: bool
  channel_ok :: bool
  qos_ok :: bool
  exchange_ok :: bool
  queue_ok :: bool
  bind_ok :: "string \<Rightarrow> bool"
  consume_ok :: bool

definition broker_up :: broker where
  "broker_up = \<lparr>dial_ok = True, channel_ok = True, qos_ok = True, exchange_ok = True,
     queue_ok = True, bind_ok = (\<lambda>k. True), consume_ok = True\<rparr>"

definition broker_down :: broker where
  "broker_down = \<lparr>dial_ok = False, channel_ok = False, qos_ok = False, exchange_ok = False,
     queue_ok = False, bind_ok = (\<lambda>k. False), consume_ok = False\<rparr>"

subsection \<open>JSON values and \<^verbatim>\<open>encoding/json\<close>\<close>

text \<open>\<^verbatim>\<open>encoding/json\<close> is not part of the repository; it is modelled from its documentation,
  on values rather than on characters. A JSON text is the value it spells, the members
  of an object in the order of the text. A number is an integer: numerals with a
  fraction or an exponent are left out.\<close>

datatype json =
    JNull
  | JBool bool
  | JNumber int
  | JString string
  | JArray "json list"
  | JObject "(string \<times> json) list"

text \<open>A byte string: the JSON text of a value, or a text that is not JSON.\<close>

datatype bytes = JSON json | Raw string

text \<open>The number of bits of a positive integer.\<close>

function bit_length :: "int \<Rightarrow> nat" where
  "bit_length n = (if n \<le> 0 then 0 else Suc (bit_length (n div 2)))"
  by pat_completeness auto
termination
  by (relation "measure nat") auto

declare bit_length.simps [simp del]

text \<open>The \<^verbatim>\<open>float64\<close> nearest to an integer, as the integer it denotes. A \<^verbatim>\<open>float64\<close> has 53
  significant bits: an integer of at most 53 bits is kept, a longer one is rounded to 53
  bits, to the nearest, a tie to the even one.\<close>

definition float64_of_int :: "int \<Rightarrow> int" where
  "float64_of_int n =
     (let a = \<bar>n\<bar>; l = bit_length a in
      if l \<le> 53 then n
      else let e = l - 53; q = a div 2 ^ e; r = a mod 2 ^ e; h = 2 ^ (e - 1);
               m = (if r > h \<or> (r = h \<and> odd q) then q + 1 else q)
           in sgn n * (m * 2 ^ e))"

text \<open>The number of decimal digits of a natural number.\<close>

function digits10 :: "int \<Rightarrow> nat" where
  "digits10 n = (if n < 10 then 1 else Suc (digits10 (n div 10)))"
  by pat_completeness auto
termination
  by (relation "measure nat") auto

declare digits10.simps [simp del]

text \<open>\<^verbatim>\<open>json.Marshal\<close> writes a \<^verbatim>\<open>float64\<close> as ES6 writes a number: with the fewest
  significant digits that still read back as the same \<^verbatim>\<open>float64\<close>, the digits dropped
  replaced by zeros. \<open>shortest_from k f\<close> looks for a multiple of \<open>10 ^ k\<close> next to \<open>f\<close>
  that reads back as \<open>f\<close>, and tries \<open>k - 1\<close> if there is none.\<close>

fun shortest_from :: "nat \<Rightarrow> int \<Rightarrow> int" where
  "shortest_from 0 f = f"
| "shortest_from (Suc k) f =
     (let p = 10 ^ Suc k; lo = (f div p) * p; hi = lo + p in
      if float64_of_int lo = f \<and> float64_of_int hi = f
      then (if f - lo \<le> hi - f then lo else hi)
      else if float64_of_int lo = f then lo
      else if float64_of_int hi = f then hi
      else shortest_from k f)"

definition es6_number :: "int \<Rightarrow> int" where
  "es6_number f = sgn f * shortest_from (digits10 \<bar>f\<bar>) \<bar>f\<bar>"

text \<open>The Go values that occur as payloads: \<^verbatim>\<open>nil\<close>, booleans, integers of an integer type,
  \<^verbatim>\<open>float64\<close> (with an integer value), strings, slices, maps with string keys (each key
  once), and channels, as a value that \<^verbatim>\<open>json.Marshal\<close> does not support.\<close>

datatype gvalue =
    GNil
  | GBool bool
  | GInt int
  | GFloat64 int
  | GString string
  | GSlice "gvalue list"
  | GMap "(string \<times> gvalue) list"
  | GChan

text \<open>\<^verbatim>\<open>json.Marshal\<close>: an integer is written in decimal, a \<^verbatim>\<open>float64\<close> as above, a map as an
  object with its keys sorted. A value that holds a channel is refused with an
  \<^verbatim>\<open>UnsupportedTypeError\<close>.\<close>

primrec to_json :: "gvalue \<Rightarrow> json" where
  "to_json GNil = JNull"
| "to_json (GBool b) = JBool b"
| "to_json (GInt n) = JNumber n"
| "to_json (GFloat64 f) = JNumber (es6_number f)"
| "to_json (GString s) = JString s"
| "to_json (GSlice vs) = JArray (map to_json vs)"
| "to_json (GMap kvs) = JObject (sort_key fst (map (map_prod id to_json) kvs))"
| "to_json GChan = JNull"

primrec supported :: "gvalue \<Rightarrow> bool" where
  "supported GNil = True"
| "supported (GBool b) = True"
| "supported (GInt n) = True"
| "supported (GFloat64 f) = True"
| "supported (GString s) = True"
| "supported (GSlice vs) = list_all id (map supported vs)"
| "supported (GMap kvs) = list_all snd (map (map_prod id supported) kvs)"
| "supported GChan = False"

definition json_Marshal :: "gvalue \<Rightarrow> error + bytes" where
  "json_Marshal v =
     (if supported v then Inr (JSON (to_json v)) else Inl (ErrJSON ''json: unsupported type''))"

text \<open>\<^verbatim>\<open>json.Unmarshal\<close> into an \<^verbatim>\<open>interface{}\<close>: a number becomes a \<^verbatim>\<open>float64\<close>, an array a
  slice, an object a map; of two members with the same key the later one is kept. A
  number beyond the range of \<^verbatim>\<open>float64\<close> is refused.\<close>

definition last_wins :: "(string \<times> 'a) list \<Rightarrow> (string \<times> 'a) list" where
  "last_wins kvs = rev (AList.clearjunk (rev kvs))"

primrec from_json :: "json \<Rightarrow> gvalue" where
  "from_json JNull = GNil"
| "from_json (JBool b) = GBool b"
| "from_json (JNumber n) = GFloat64 (float64_of_int n)"
| "from_json (JString s) = GString s"
| "from_json (JArray js) = GSlice (map from_json js)"
| "from_json (JObject kvs) = GMap (last_wins (map (map_prod id from_json) kvs))"

primrec json_fits :: "json \<Rightarrow> bool" where
  "json_fits JNull = True"
| "json_fits (JBool b) = True"
| "json_fits (JNumber n) = (bit_length \<bar>float64_of_int n\<bar> \<le> 1024)"
| "json_fits (JString s) = True"
| "json_fits (JArray js) = list_all id (map json_fits js)"
| "json_fits (JObject kvs) = list_all snd (map (map_prod id json_fits) kvs)"

text \<open>A \<^verbatim>\<open>time.Time\<close> is written to JSON, and read from it, as a text in the format of
  RFC 3339: \<^verbatim>\<open>2006-01-02T15:04:05\<close>, an optional fraction of the second, and \<^verbatim>\<open>Z\<close> or an
  offset \<^verbatim>\<open>+07:00\<close>.\<close>

definition digit :: "char \<Rightarrow> nat option" where
  "digit c = (let n = (of_char c :: nat) in if 48 \<le> n \<and> n \<le> 57 then Some (n - 48) else None)"

fun digits_value :: "nat \<Rightarrow> string \<Rightarrow> nat option" where
  "digits_value acc [] = Some acc"
| "digits_value acc (c # cs) =
     (case digit c of None \<Rightarrow> None | Some d \<Rightarrow> digits_value (10 * acc + d) cs)"

definition field_between :: "nat \<Rightarrow> nat \<Rightarrow> string \<Rightarrow> bool" where
  "field_between lo hi s =
     (case digits_value 0 s of None \<Rightarrow> False | Some n \<Rightarrow> s \<noteq> [] \<and> lo \<le> n \<and> n \<le> hi)"

definition days_in :: "nat \<Rightarrow> nat \<Rightarrow> nat" where
  "days_in year month =
     (if month = 2 then
        (if year mod 4 = 0 \<and> (year mod 100 \<noteq> 0 \<or> year mod 400 = 0) then 29 else 28)
      else if month \<in> {4, 6, 9, 11} then 30 else 31)"

definition zone :: "string \<Rightarrow> bool" where
  "zone z =
     (z = ''Z'' \<or>
      (length z = 6 \<and> (z ! 0 = CHR ''+'' \<or> z ! 0 = CHR ''-'') \<and>
       field_between 0 23 (take 2 (drop 1 z)) \<and> z ! 3 = CHR '':'' \<and>
       field_between 0 59 (drop 4 z)))"

definition rfc3339 :: "string \<Rightarrow> bool" where
  "rfc3339 s =
     (19 < length s \<and>
      s ! 4 = CHR ''-'' \<and> s ! 7 = CHR ''-'' \<and> s ! 10 = CHR ''T'' \<and>
      s ! 13 = CHR '':'' \<and> s ! 16 = CHR '':'' \<and>
      (case (digits_value 0 (take 4 s), digits_value 0 (take 2 (drop 5 s))) of
         (Some year, Some month) \<Rightarrow>
           1 \<le> month \<and> month \<le> 12 \<and>
           field_between 1 (days_in year month) (take 2 (drop 8 s))
       | _ \<Rightarrow> False) \<and>
      field_between 0 23 (take 2 (drop 11 s)) \<and>
      field_between 0 59 (take 2 (drop 14 s)) \<and>
      field_between 0 59 (take 2 (drop 17 s)) \<and>
      (let rest = drop 19 s in
       if hd rest = CHR ''.''
       then takeWhile (\<lambda>c. digit c \<noteq> None) (tl rest) \<noteq> [] \<and>
            zone (dropWhile (\<lambda>c. digit c \<noteq> None) (tl rest))
       else zone rest))"

text \<open>The key of a member is matched with the name of a field without regard to case.\<close>

definition lower :: "char \<Rightarrow> char" where
  "lower c =
     (case map_of (zip ''ABCDEFGHIJKLMNOPQRSTUVWXYZ'' ''abcdefghijklmnopqrstuvwxyz'') c of
        Some l \<Rightarrow> l
      | None \<Rightarrow> c)"

subsection \<open>The event envelope and the messages\<close>

text \<open>\<^verbatim>\<open>Payload\<close> is an \<^verbatim>\<open>interface{}\<close>: the type of the payload is a parameter, which the
  codec below takes to be \<open>gvalue\<close>.\<close>

record 'p EventEnvelope =
  EventType :: string
  OccurredAt :: time
  ServiceName :: string
  Payload :: 'p

text \<open>\<^verbatim>\<open>json.Marshal\<close> on an envelope: an object with the four members the struct tags
  name, in the order of the fields.\<close>

definition json_Marshal_envelope :: "gvalue EventEnvelope \<Rightarrow> error + bytes" where
  "json_Marshal_envelope envelope =
     (if supported (Payload envelope) then
        Inr (JSON (JObject [(''event_type'', JString (EventType envelope)),
                            (''occurred_at'', JString (OccurredAt envelope)),
                            (''service_name'', JString (ServiceName envelope)),
                            (''payload'', to_json (Payload envelope))]))
      else Inl (ErrJSON ''json: unsupported type''))"

text \<open>\<^verbatim>\<open>json.Unmarshal\<close> into an \<^verbatim>\<open>EventEnvelope\<close> that holds the zero value. \<^verbatim>\<open>null\<close> leaves
  the envelope, or a field, as it is; a member with an unknown key is skipped; a member
  of the wrong type, a time that is not in the format of RFC 3339 and a text that is
  not JSON are errors.\<close>

definition zero_envelope :: "gvalue EventEnvelope" where
  "zero_envelope = \<lparr>EventType = [], OccurredAt = ''0001-01-01T00:00:00Z'', ServiceName = [],
     Payload = GNil\<rparr>"

fun decode_members ::
  "(string \<times> json) list \<Rightarrow> gvalue EventEnvelope \<Rightarrow> error + gvalue EventEnvelope" where
  "decode_members [] envelope = Inr envelope"
| "decode_members ((key, j) # members) envelope =
     (if map lower key = ''event_type'' then
        (case j of
           JString s \<Rightarrow> decode_members members (envelope\<lparr>EventType := s\<rparr>)
         | JNull \<Rightarrow> decode_members members envelope
         | _ \<Rightarrow> Inl (ErrJSON ''json: cannot unmarshal into Go struct field of type string''))
      else if map lower key = ''occurred_at'' then
        (case j of
           JString s \<Rightarrow>
             if rfc3339 s then decode_members members (envelope\<lparr>OccurredAt := s\<rparr>)
             else Inl (ErrJSON ''parsing time: cannot parse'')
         | JNull \<Rightarrow> decode_members members envelope
         | _ \<Rightarrow> Inl (ErrJSON ''Time.UnmarshalJSON: input is not a JSON string''))
      else if map lower key = ''service_name'' then
        (case j of
           JString s \<Rightarrow> decode_members members (envelope\<lparr>ServiceName := s\<rparr>)
         | JNull \<Rightarrow> decode_members members envelope
         | _ \<Rightarrow> Inl (ErrJSON ''json: cannot unmarshal into Go struct field of type string''))
      else if map lower key = ''payload'' then
        (if json_fits j then decode_members members (envelope\<lparr>Payload := from_json j\<rparr>)
         else Inl (ErrJSON ''json: cannot unmarshal number into Go value of type float64''))
      else decode_members members envelope)"

definition json_Unmarshal :: "bytes \<Rightarrow> error + gvalue EventEnvelope" where
  "json_Unmarshal body =
     (case body of
        Raw text \<Rightarrow> Inl (ErrJSON ''invalid character'')
      | JSON j \<Rightarrow>
          (case j of
             JNull \<Rightarrow> Inr zero_envelope
           | JObject members \<Rightarrow> decode_members members zero_envelope
           | _ \<Rightarrow> Inl (ErrJSON ''json: cannot unmarshal into Go value of type EventEnvelope'')))"

record PublishConfig =
  Mandatory :: bool
  Immediate :: bool
  Headers :: "((string \<times> string) list) option"
  Priority :: nat

text \<open>\<^verbatim>\<open>amqp.Publishing\<close>, with the fields the publisher sets. \<open>PMessageId\<close> is the
  reading of the clock, of which the source prints the nanoseconds since the epoch.\<close>

record Publishing =
  DeliveryMode :: nat
  Timestamp :: time
  ContentType :: string
  PBody :: bytes
  PMessageId :: time
  PHeaders :: "((string \<times> string) list) option"
  PPriority :: nat

datatype log_level = Debug | Info | Warn | Error

subsection \<open>Publisher\<close>

record Publisher =
  p_connection :: "nat option"
  p_channel :: "nat option"
  p_exchangeName :: string
  p_serviceName :: string
  p_connected :: bool
  p_reconnecting :: bool

text \<open>What one call of \<^verbatim>\<open>PublishEventWithConfig\<close> does: the error it returns, the call of
  \<^verbatim>\<open>channel.Publish\<close> it makes (exchange, routing key, mandatory, immediate, message), if
  any, and the log lines it writes.\<close>

record publish_result =
  returned :: "error option"
  sent :: "(string \<times> string \<times> bool \<times> bool \<times> Publishing) option"
  logged :: "(log_level \<times> string) list"

text \<open>\<^verbatim>\<open>PublishEventWithConfig\<close> (publisher.go, lines 198-258). \<open>marshal\<close> is
  \<^verbatim>\<open>json.Marshal\<close> on the envelope, \<open>now\<close> the clock, and \<open>publish\<close> the answer of
  \<^verbatim>\<open>channel.Publish\<close> on the channel the publisher holds.\<close>

definition PublishEventWithConfig ::
  "('p EventEnvelope \<Rightarrow> error + bytes) \<Rightarrow> time \<Rightarrow> error option \<Rightarrow>
   'a Publisher_scheme \<Rightarrow> string \<Rightarrow> 'p \<Rightarrow> PublishConfig option \<Rightarrow> publish_result" where
  "PublishEventWithConfig marshal now publish p routingKey payload config =
    (if p_channel p = None then
       \<lparr>returned = None, sent = None,
        logged = [(Debug, ''Event '' @ routingKey @ '' not published (RabbitMQ not connected)'')]\<rparr>
     else
       let envelope = \<lparr>EventType = routingKey, OccurredAt = now,
                       ServiceName = p_serviceName p, Payload = payload\<rparr>
       in case marshal envelope of
            Inl err \<Rightarrow> \<lparr>returned = Some ErrSerialize, sent = None, logged = []\<rparr>
          | Inr body \<Rightarrow>
              let msg = \<lparr>DeliveryMode = 2, Timestamp = now,
                         ContentType = ''application/json'', PBody = body, PMessageId = now,
                         PHeaders = None, PPriority = 0\<rparr>;
                  msg1 = (case config of
                            None \<Rightarrow> msg
                          | Some cfg \<Rightarrow>
                              let m1 = (if Headers cfg \<noteq> None
                                        then msg\<lparr>PHeaders := Headers cfg\<rparr> else msg)
                              in if Priority cfg > 0
                                 then m1\<lparr>PPriority := Priority cfg\<rparr> else m1);
                  call = (p_exchangeName p, routingKey,
                          (case config of None \<Rightarrow> False | Some cfg \<Rightarrow> Mandatory cfg),
                          (case config of None \<Rightarrow> False | Some cfg \<Rightarrow> Immediate cfg),
                          msg1)
              in (case publish of
                    Some err \<Rightarrow> \<lparr>returned = Some ErrPublish, sent = Some call, logged = []\<rparr>
                  | None \<Rightarrow> \<lparr>returned = None, sent = Some call,
                             logged = [(Debug, ''Published event '' @ routingKey)]\<rparr>))"

definition PublishEvent ::
  "('p EventEnvelope \<Rightarrow> error + bytes) \<Rightarrow> time \<Rightarrow> error option \<Rightarrow>
   'a Publisher_scheme \<Rightarrow> string \<Rightarrow> 'p \<Rightarrow> publish_result" where
  "PublishEvent marshal now publish p routingKey payload =
     PublishEventWithConfig marshal now publish p routingKey payload None"

subsection \<open>The publisher and its goroutines\<close>

text \<open>Where a goroutine running \<^verbatim>\<open>Publisher.reconnect\<close> stands (publisher.go, lines
  137-175): before the guard on \<^verbatim>\<open>reconnecting\<close>; at the top of the loop, with the value
  of the local variable \<^verbatim>\<open>backoff\<close>; or returned from the loop, before the deferred
  function resets \<^verbatim>\<open>reconnecting\<close>.\<close>

datatype ppc = PGuard | PLoop duration | PDeferred

text \<open>The goroutines of a publisher: the one \<^verbatim>\<open>connect\<close> starts to wait on the close
  notification of a connection, the ones that run \<^verbatim>\<open>reconnect\<close>, and those that have
  returned.\<close>

datatype ptask = PMonitor nat | PReconnect ppc | PDone

text \<open>The publisher together with its goroutines, the connections that are open, the
  number of the next connection, and the durations passed to \<^verbatim>\<open>time.Sleep\<close> so far.\<close>

record psys = Publisher +
  p_tasks :: "ptask list"
  p_open :: "nat list"
  p_next :: nat
  p_slept :: "duration list"

text \<open>\<^verbatim>\<open>Publisher.connect\<close> (lines 74-134). The calls are made in the order of the source;
  a connection that was opened before a later call failed is closed again and leaves no
  trace.\<close>

definition Publisher_connect :: "broker \<Rightarrow> psys \<Rightarrow> error option \<times> psys" where
  "Publisher_connect b s =
    (if p_connected s then (None, s)
     else if \<not> dial_ok b then (Some ErrDial, s)
     else if \<not> channel_ok b then (Some ErrChannel, s)
     else if \<not> exchange_ok b then (Some ErrExchangeDeclare, s)
     else (None, s\<lparr>p_connection := Some (p_next s), p_channel := Some (p_next s),
                     p_connected := True,
                     p_tasks := p_tasks s @ [PMonitor (p_next s)],
                     p_open := p_next s # p_open s,
                     p_next := Suc (p_next s)\<rparr>))"

text \<open>\<^verbatim>\<open>NewPublisher\<close> (lines 44-71): the publisher and the error returned.\<close>

definition NewPublisher :: "string \<Rightarrow> string \<Rightarrow> string \<Rightarrow> broker \<Rightarrow> psys \<times> error option" where
  "NewPublisher rabbitmqURL exchangeName serviceName b =
    (let publisher = \<lparr>p_connection = None, p_channel = None, p_exchangeName = exchangeName,
                       p_serviceName = serviceName, p_connected = False,
                       p_reconnecting = False,
                       p_tasks = [], p_open = [], p_next = 0, p_slept = []\<rparr>
     in if rabbitmqURL = [] then (publisher, None)
        else case Publisher_connect b publisher of
               (Some err, s) \<Rightarrow> (s\<lparr>p_tasks := p_tasks s @ [PReconnect PGuard]\<rparr>, None)
             | (None, s) \<Rightarrow> (s, None))"

text \<open>\<^verbatim>\<open>Publisher.Close\<close> (lines 178-190). Closing the channel and the connection takes the
  connection out of the open ones; the fields \<^verbatim>\<open>channel\<close> and \<^verbatim>\<open>connection\<close> keep their
  values.\<close>

definition Publisher_Close :: "psys \<Rightarrow> psys" where
  "Publisher_Close s =
    (let s1 = (case p_connection s of
                 None \<Rightarrow> s
               | Some n \<Rightarrow> s\<lparr>p_open := removeAll n (p_open s)\<rparr>)
     in s1\<lparr>p_connected := False\<rparr>)"

text \<open>The goroutine of \<^verbatim>\<open>connect\<close> (lines 116-126). The receive from \<^verbatim>\<open>closeChan\<close>
  returns once the connection is closed, by the broker or by \<^verbatim>\<open>Close\<close>: the library
  sends the error on the channel or, on an orderly shutdown, closes it. The goroutine
  then clears \<^verbatim>\<open>connected\<close> and starts \<^verbatim>\<open>reconnect\<close> in a new goroutine.\<close>

definition Publisher_monitor :: "nat \<Rightarrow> psys \<Rightarrow> psys" where
  "Publisher_monitor i s =
    (if i < length (p_tasks s) then
       (case p_tasks s ! i of
          PMonitor n \<Rightarrow>
            if n \<in> set (p_open s) then s
            else s\<lparr>p_connected := False,
                   p_tasks := (p_tasks s)[i := PDone] @ [PReconnect PGuard]\<rparr>
        | _ \<Rightarrow> s)
     else s)"

text \<open>The doubling of \<^verbatim>\<open>backoff\<close> with its cap (lines 165-168 of publisher.go and
  238-241 of consumer.go).\<close>

definition maxBackoff :: duration where
  "maxBackoff = 30 * second"

definition next_backoff :: "duration \<Rightarrow> duration" where
  "next_backoff backoff = (let b = backoff * 2 in if b > maxBackoff then maxBackoff else b)"

text \<open>One atomic section of the goroutine \<open>i\<close> that runs \<^verbatim>\<open>Publisher.reconnect\<close>:
  the guard (lines 138-144); one turn of the loop, which sleeps and then calls
  \<^verbatim>\<open>connect\<close> (lines 156-174); the deferred function (lines 146-150).\<close>

definition Publisher_reconnect :: "nat \<Rightarrow> broker \<Rightarrow> psys \<Rightarrow> psys" where
  "Publisher_reconnect i b s =
    (if i < length (p_tasks s) then
       (case p_tasks s ! i of
          PReconnect PGuard \<Rightarrow>
            if p_reconnecting s then s\<lparr>p_tasks := (p_tasks s)[i := PDone]\<rparr>
            else s\<lparr>p_reconnecting := True,
                   p_tasks := (p_tasks s)[i := PReconnect (PLoop (1 * second))]\<rparr>
        | PReconnect (PLoop backoff) \<Rightarrow>
            (case Publisher_connect b (s\<lparr>p_slept := p_slept s @ [backoff]\<rparr>) of
               (Some err, s1) \<Rightarrow>
                 s1\<lparr>p_tasks := (p_tasks s1)[i := PReconnect (PLoop (next_backoff backoff))]\<rparr>
             | (None, s1) \<Rightarrow> s1\<lparr>p_tasks := (p_tasks s1)[i := PReconnect PDeferred]\<rparr>)
        | PReconnect PDeferred \<Rightarrow>
            s\<lparr>p_reconnecting := False, p_tasks := (p_tasks s)[i := PDone]\<rparr>
        | _ \<Rightarrow> s)
     else s)"

text \<open>What can happen to a publisher: the broker (or the network) closes a connection,
  the application calls \<^verbatim>\<open>Close\<close>, a monitoring goroutine runs, a reconnecting goroutine
  runs its next atomic section against the given answers of the broker.\<close>

datatype pevent =
    PBrokerDrop nat
  | PCallClose
  | PRunMonitor nat
  | PRunReconnect nat broker

fun pstep :: "pevent \<Rightarrow> psys \<Rightarrow> psys" where
  "pstep (PBrokerDrop n) s = s\<lparr>p_open := removeAll n (p_open s)\<rparr>"
| "pstep PCallClose s = Publisher_Close s"
| "pstep (PRunMonitor i) s = Publisher_monitor i s"
| "pstep (PRunReconnect i b) s = Publisher_reconnect i b s"

text \<open>A schedule is run from left to right.\<close>

definition prun :: "pevent list \<Rightarrow> psys \<Rightarrow> psys" where
  "prun es s = fold pstep es s"

text \<open>A reconnecting goroutine is in flight from the moment it has passed the guard
  until its deferred function has run.\<close>

fun p_in_flight :: "ptask \<Rightarrow> bool" where
  "p_in_flight (PReconnect (PLoop d)) = True"
| "p_in_flight (PReconnect PDeferred) = True"
| "p_in_flight t = False"

subsection \<open>Consumer\<close>

text \<open>\<^verbatim>\<open>amqp.Delivery\<close>, with the fields the consumer reads.\<close>

record Delivery =
  RoutingKey :: string
  Body :: bytes
  MessageId :: string
  Redelivered :: bool

text \<open>The context a handler receives: the deadline of \<^verbatim>\<open>context.WithTimeout\<close> and the
  values attached with \<^verbatim>\<open>context.WithValue\<close> and \<^verbatim>\<open>logging.ContextWithRequestID\<close>.\<close>

record ctx =
  timeout :: duration
  event_type :: string
  occurred_at :: time
  service_name :: string
  request_id :: string

type_synonym HandlerFunc = "ctx \<Rightarrow> Delivery \<Rightarrow> bytes \<Rightarrow> error option"

text \<open>The map \<^verbatim>\<open>handlers\<close> is an association list with one entry per key, in the order
  in which the keys were first stored; \<^verbatim>\<open>stopChan\<close> is open (\<open>False\<close>) or closed
  (\<open>True\<close>).\<close>

record Consumer =
  c_connection :: "nat option"
  c_channel :: "nat option"
  c_exchangeName :: string
  c_queueName :: string
  c_serviceName :: string
  c_handlers :: "(string \<times> HandlerFunc) list"
  c_connected :: bool
  c_reconnecting :: bool
  c_stopChan :: bool
  c_stopped :: bool

text \<open>Where a goroutine running \<^verbatim>\<open>Consumer.reconnect\<close> stands (consumer.go, lines
  201-257): before the guard; at the top of the loop, before \<^verbatim>\<open>stopped\<close> is read;
  before the sleep and the call of \<^verbatim>\<open>connect\<close>; before the call of \<^verbatim>\<open>resubscribe\<close>;
  after a failed \<^verbatim>\<open>resubscribe\<close>, before \<^verbatim>\<open>connected\<close> is cleared; returned from the
  loop, before the deferred function runs. The duration is the local \<^verbatim>\<open>backoff\<close>.\<close>

datatype cpc =
    CGuard
  | CLoop duration
  | CSleep duration
  | CResubscribe duration
  | CMarkDisconnected duration
  | CDeferred

datatype ctask = CMonitor nat | CReconnect cpc | CDone

text \<open>The consumer together with its goroutines, the open connections, the number of the
  next connection, the durations slept, the calls of \<^verbatim>\<open>QueueBind\<close> the broker accepted
  (channel and routing key), and the channels on whose deliveries a goroutine running
  \<^verbatim>\<open>handleDeliveries\<close> was started, one entry per goroutine.\<close>

record csys = Consumer +
  c_tasks :: "ctask list"
  c_open :: "nat list"
  c_next :: nat
  c_slept :: "duration list"
  c_binds :: "(nat \<times> string) list"
  c_loops :: "nat list"

text \<open>\<^verbatim>\<open>Consumer.connect\<close> (lines 100-198). The options are only passed on to the
  library, whose answers are in \<open>b\<close>.\<close>

definition Consumer_connect :: "broker \<Rightarrow> csys \<Rightarrow> error option \<times> csys" where
  "Consumer_connect b s =
    (if c_connected s then (None, s)
     else if \<not> dial_ok b then (Some ErrDial, s)
     else if \<not> channel_ok b then (Some ErrChannel, s)
     else if \<not> qos_ok b then (Some ErrQos, s)
     else if \<not> exchange_ok b then (Some ErrExchangeDeclare, s)
     else if \<not> queue_ok b then (Some ErrQueueDeclare, s)
     else (None, s\<lparr>c_connection := Some (c_next s), c_channel := Some (c_next s),
                     c_connected := True,
                     c_tasks := c_tasks s @ [CMonitor (c_next s)],
                     c_open := c_next s # c_open s,
                     c_next := Suc (c_next s)\<rparr>))"

text \<open>\<^verbatim>\<open>NewConsumer\<close> (lines 60-97).\<close>

definition NewConsumer ::
  "string \<Rightarrow> string \<Rightarrow> string \<Rightarrow> string \<Rightarrow> broker \<Rightarrow> csys \<times> error option" where
  "NewConsumer rabbitmqURL exchangeName queueName serviceName b =
    (let consumer = \<lparr>c_connection = None, c_channel = None, c_exchangeName = exchangeName,
                      c_queueName = queueName, c_serviceName = serviceName,
                      c_handlers = [], c_connected = False, c_reconnecting = False,
                      c_stopChan = False, c_stopped = False,
                      c_tasks = [], c_open = [], c_next = 0, c_slept = [],
                      c_binds = [], c_loops = []\<rparr>
     in if rabbitmqURL = [] then (consumer, None)
        else case Consumer_connect b consumer of
               (Some err, s) \<Rightarrow> (s\<lparr>c_tasks := c_tasks s @ [CReconnect CGuard]\<rparr>, None)
             | (None, s) \<Rightarrow> (s, None))"

text \<open>The loop over the routes in \<^verbatim>\<open>resubscribe\<close> (lines 275-285): it stops at the first
  \<^verbatim>\<open>QueueBind\<close> that fails. Go leaves the order of the keys of a map open; the model
  takes them in the order of the association list.\<close>

fun bind_routes ::
  "broker \<Rightarrow> nat \<Rightarrow> string list \<Rightarrow> (nat \<times> string) list \<Rightarrow> error option \<times> (nat \<times> string) list" where
  "bind_routes b ch [] binds = (None, binds)"
| "bind_routes b ch (route # routes) binds =
     (if bind_ok b route then bind_routes b ch routes (binds @ [(ch, route)])
      else (Some ErrQueueBind, binds))"

text \<open>\<^verbatim>\<open>Consumer.resubscribe\<close> (lines 260-305).\<close>

definition Consumer_resubscribe :: "broker \<Rightarrow> csys \<Rightarrow> error option \<times> csys" where
  "Consumer_resubscribe b s =
    (case c_channel s of
       None \<Rightarrow> (Some ErrNotConnected, s)
     | Some ch \<Rightarrow>
         if \<not> c_connected s then (Some ErrNotConnected, s)
         else (case bind_routes b ch (map fst (c_handlers s)) (c_binds s) of
                 (Some err, binds) \<Rightarrow> (Some err, s\<lparr>c_binds := binds\<rparr>)
               | (None, binds) \<Rightarrow>
                   if \<not> consume_ok b then (Some ErrConsume, s\<lparr>c_binds := binds\<rparr>)
                   else (None, s\<lparr>c_binds := binds, c_loops := c_loops s @ [ch]\<rparr>)))"

text \<open>\<^verbatim>\<open>Consumer.Subscribe\<close> (lines 308-351).\<close>

definition Consumer_Subscribe ::
  "broker \<Rightarrow> string \<Rightarrow> HandlerFunc \<Rightarrow> csys \<Rightarrow> error option \<times> csys" where
  "Consumer_Subscribe b routingKey handler s =
    (let s1 = s\<lparr>c_handlers := AList.update routingKey handler (c_handlers s)\<rparr>
     in case c_channel s1 of
          None \<Rightarrow> (None, s1)
        | Some ch \<Rightarrow>
            if \<not> c_connected s1 then (None, s1)
            else if \<not> bind_ok b routingKey then (Some ErrQueueBind, s1)
            else
              let s2 = s1\<lparr>c_binds := c_binds s1 @ [(ch, routingKey)]\<rparr>
              in if length (c_handlers s2) = 1 then
                   (if \<not> consume_ok b then (Some ErrConsume, s2)
                    else (None, s2\<lparr>c_loops := c_loops s2 @ [ch]\<rparr>))
                 else (None, s2))"

text \<open>\<^verbatim>\<open>Consumer.Close\<close> (lines 417-438).\<close>

definition Consumer_Close :: "csys \<Rightarrow> csys" where
  "Consumer_Close s =
    (if c_stopped s then s
     else
       let s1 = s\<lparr>c_stopped := True, c_stopChan := True\<rparr>;
           s2 = s1\<lparr>c_channel := None\<rparr>;
           s3 = (case c_connection s2 of
                   None \<Rightarrow> s2
                 | Some n \<Rightarrow> s2\<lparr>c_open := removeAll n (c_open s2), c_connection := None\<rparr>)
       in s3\<lparr>c_connected := False\<rparr>)"

text \<open>The goroutine of \<^verbatim>\<open>connect\<close> (lines 168-190) selects between the close
  notification of its connection and \<^verbatim>\<open>stopChan\<close>. The first function is the branch of
  the notification, the second the branch of \<^verbatim>\<open>stopChan\<close>; when both are ready the
  schedule chooses.\<close>

definition Consumer_monitor_closed :: "nat \<Rightarrow> csys \<Rightarrow> csys" where
  "Consumer_monitor_closed i s =
    (if i < length (c_tasks s) then
       (case c_tasks s ! i of
          CMonitor n \<Rightarrow>
            if n \<in> set (c_open s) then s
            else s\<lparr>c_connected := False,
                   c_tasks := (c_tasks s)[i := CDone] @ [CReconnect CGuard]\<rparr>
        | _ \<Rightarrow> s)
     else s)"

definition Consumer_monitor_stopped :: "nat \<Rightarrow> csys \<Rightarrow> csys" where
  "Consumer_monitor_stopped i s =
    (if i < length (c_tasks s) then
       (case c_tasks s ! i of
          CMonitor n \<Rightarrow>
            if \<not> c_stopChan s then s
            else
              let s1 = (case c_connection s of
                          None \<Rightarrow> s
                        | Some m \<Rightarrow> s\<lparr>c_open := removeAll m (c_open s)\<rparr>)
              in s1\<lparr>c_connected := False, c_tasks := (c_tasks s1)[i := CDone]\<rparr>
        | _ \<Rightarrow> s)
     else s)"

text \<open>One atomic section of the goroutine \<open>i\<close> that runs \<^verbatim>\<open>Consumer.reconnect\<close>.\<close>

definition Consumer_reconnect :: "nat \<Rightarrow> broker \<Rightarrow> csys \<Rightarrow> csys" where
  "Consumer_reconnect i b s =
    (if i < length (c_tasks s) then
       (case c_tasks s ! i of
          CReconnect CGuard \<Rightarrow>
            if c_reconnecting s \<or> c_stopped s then s\<lparr>c_tasks := (c_tasks s)[i := CDone]\<rparr>
            else s\<lparr>c_reconnecting := True,
                   c_tasks := (c_tasks s)[i := CReconnect (CLoop (1 * second))]\<rparr>
        | CReconnect (CLoop backoff) \<Rightarrow>
            if c_stopped s then s\<lparr>c_tasks := (c_tasks s)[i := CReconnect CDeferred]\<rparr>
            else s\<lparr>c_tasks := (c_tasks s)[i := CReconnect (CSleep backoff)]\<rparr>
        | CReconnect (CSleep backoff) \<Rightarrow>
            (case Consumer_connect b (s\<lparr>c_slept := c_slept s @ [backoff]\<rparr>) of
               (Some err, s1) \<Rightarrow>
                 s1\<lparr>c_tasks := (c_tasks s1)[i := CReconnect (CLoop (next_backoff backoff))]\<rparr>
             | (None, s1) \<Rightarrow>
                 s1\<lparr>c_tasks := (c_tasks s1)[i := CReconnect (CResubscribe backoff)]\<rparr>)
        | CReconnect (CResubscribe backoff) \<Rightarrow>
            (case Consumer_resubscribe b s of
               (Some err, s1) \<Rightarrow>
                 s1\<lparr>c_tasks := (c_tasks s1)[i := CReconnect (CMarkDisconnected backoff)]\<rparr>
             | (None, s1) \<Rightarrow> s1\<lparr>c_tasks := (c_tasks s1)[i := CReconnect CDeferred]\<rparr>)
        | CReconnect (CMarkDisconnected backoff) \<Rightarrow>
            s\<lparr>c_connected := False, c_tasks := (c_tasks s)[i := CReconnect (CLoop backoff)]\<rparr>
        | CReconnect CDeferred \<Rightarrow>
            s\<lparr>c_reconnecting := False, c_tasks := (c_tasks s)[i := CDone]\<rparr>
        | _ \<Rightarrow> s)
     else s)"

datatype cevent =
    CBrokerDrop nat
  | CCallClose
  | CCallSubscribe string HandlerFunc broker
  | CMonitorClosed nat
  | CMonitorStopped nat
  | CRunReconnect nat broker

fun cstep :: "cevent \<Rightarrow> csys \<Rightarrow> csys" where
  "cstep (CBrokerDrop n) s = s\<lparr>c_open := removeAll n (c_open s)\<rparr>"
| "cstep CCallClose s = Consumer_Close s"
| "cstep (CCallSubscribe routingKey handler b) s = snd (Consumer_Subscribe b routingKey handler s)"
| "cstep (CMonitorClosed i) s = Consumer_monitor_closed i s"
| "cstep (CMonitorStopped i) s = Consumer_monitor_stopped i s"
| "cstep (CRunReconnect i b) s = Consumer_reconnect i b s"

definition crun :: "cevent list \<Rightarrow> csys \<Rightarrow> csys" where
  "crun es s = fold cstep es s"

fun c_in_flight :: "ctask \<Rightarrow> bool" where
  "c_in_flight (CReconnect CGuard) = False"
| "c_in_flight (CReconnect pc) = True"
| "c_in_flight t = False"

subsection \<open>The dispatch loop\<close>

text \<open>How a delivery is settled: \<^verbatim>\<open>delivery.Ack(false)\<close>, or
  \<^verbatim>\<open>delivery.Nack(false, requeue)\<close>.\<close>

datatype settlement = Ack | Nack bool

text \<open>What the loop does with one delivery: how it settles it, and the calls of the
  handler it makes, each with the context and the payload bytes passed.\<close>

record outcome =
  settled :: settlement
  calls :: "(ctx \<times> bytes) list"

text \<open>The body of the loop of \<^verbatim>\<open>handleDeliveries\<close> (lines 356-410), for the registry
  \<open>handlers\<close> as it is when the delivery arrives. \<open>unmarshal\<close> is \<^verbatim>\<open>json.Unmarshal\<close>
  into an \<^verbatim>\<open>EventEnvelope\<close>, \<open>marshal\<close> is \<^verbatim>\<open>json.Marshal\<close> on the decoded payload.\<close>

definition handle_delivery ::
  "(bytes \<Rightarrow> error + 'q EventEnvelope) \<Rightarrow> ('q \<Rightarrow> error + bytes) \<Rightarrow>
   (string \<times> HandlerFunc) list \<Rightarrow> Delivery \<Rightarrow> outcome" where
  "handle_delivery unmarshal marshal handlers delivery =
    (case map_of handlers (RoutingKey delivery) of
       None \<Rightarrow> \<lparr>settled = Nack False, calls = []\<rparr>
     | Some handler \<Rightarrow>
         (case unmarshal (Body delivery) of
            Inl err \<Rightarrow> \<lparr>settled = Nack False, calls = []\<rparr>
          | Inr envelope \<Rightarrow>
              (case marshal (Payload envelope) of
                 Inl err \<Rightarrow> \<lparr>settled = Nack False, calls = []\<rparr>
               | Inr payload \<Rightarrow>
                   let c = \<lparr>timeout = 30 * second, event_type = EventType envelope,
                            occurred_at = OccurredAt envelope,
                            service_name = ServiceName envelope,
                            request_id = MessageId delivery\<rparr>
                   in (case handler c delivery payload of
                         Some err \<Rightarrow> \<lparr>settled = Nack True, calls = [(c, payload)]\<rparr>
                       | None \<Rightarrow> \<lparr>settled = Ack, calls = [(c, payload)]\<rparr>))))"

text \<open>\<^verbatim>\<open>handleDeliveries\<close> (lines 354-414) on the deliveries its channel yields before it is
  closed: one outcome per delivery, in order.\<close>

fun handleDeliveries ::
  "(bytes \<Rightarrow> error + 'q EventEnvelope) \<Rightarrow> ('q \<Rightarrow> error + bytes) \<Rightarrow>
   'a Consumer_scheme \<Rightarrow> Delivery list \<Rightarrow> outcome list" where
  "handleDeliveries unmarshal marshal c [] = []"
| "handleDeliveries unmarshal marshal c (delivery # deliveries) =
     handle_delivery unmarshal marshal (c_handlers c) delivery
       # handleDeliveries unmarshal marshal c deliveries"

subsection \<open>The scenario of the specification\<close>

text \<open>The event \<^verbatim>\<open>region.created\<close> with the payload \<^verbatim>\<open>{"id":1,"name":"North"}\<close>, published
  by the service \<^verbatim>\<open>regions\<close> at the instant \<^verbatim>\<open>2023-11-14T22:13:20Z\<close>: the payload the
  publisher is called with, the body of the message, and the envelope and the payload
  bytes the consumer gets from this body.\<close>

definition scenario_payload :: gvalue where
  "scenario_payload = GMap [(''name'', GString ''North''), (''id'', GInt 1)]"

definition scenario_time :: time where
  "scenario_time = ''2023-11-14T22:13:20Z''"

definition scenario_body :: bytes where
  "scenario_body =
     JSON (JObject [(''event_type'', JString ''region.created''),
                    (''occurred_at'', JString ''2023-11-14T22:13:20Z''),
                    (''service_name'', JString ''regions''),
                    (''payload'', JObject [(''id'', JNumber 1), (''name'', JString ''North'')])])"

definition scenario_envelope :: "gvalue EventEnvelope" where
  "scenario_envelope = \<lparr>EventType = ''region.created'', OccurredAt = scenario_time,
     ServiceName = ''regions'',
     Payload = GMap [(''id'', GFloat64 1), (''name'', GString ''North'')]\<rparr>"

definition scenario_payload_bytes :: bytes where
  "scenario_payload_bytes = JSON (JObject [(''id'', JNumber 1), (''name'', JString ''North'')])"

definition scenario_delivery :: Delivery where
  "scenario_delivery = \<lparr>RoutingKey = ''region.created'', Body = scenario_body,
     MessageId = ''1700000000000000000'', Redelivered = False\<rparr>"

text \<open>A delivery whose body is not JSON.\<close>

definition poison_delivery :: Delivery where
  "poison_delivery = \<lparr>RoutingKey = ''region.created'', Body = Raw ''not json'',
     MessageId = ''1700000000000000001'', Redelivered = False\<rparr>"



definition channel_payload :: gvalue where
  "channel_payload = GMap [(''done'', GChan)]"

text \<open>A handler that succeeds and one that fails.\<close>

definition accept :: HandlerFunc where
  "accept c delivery message = None"

definition reject :: HandlerFunc where
  "reject c delivery message = Some (ErrHandler ''failed'')"

text \<open>A broker that accepts everything but \<^verbatim>\<open>Consume\<close>.\<close>

definition broker_no_consume :: broker where
  "broker_no_consume = broker_up\<lparr>consume_ok := False\<rparr>"

text \<open>A consumer and a publisher that connected at construction.\<close>

definition connected_consumer :: csys where
  "connected_consumer =
     fst (NewConsumer ''amqp://broker'' ''events'' ''cities.q'' ''cities'' broker_up)"

definition connected_publisher :: psys where
  "connected_publisher = fst (NewPublisher ''amqp://broker'' ''events'' ''regions'' broker_up)"

subsection \<open>Notions used in the statements\<close>

text \<open>The delay before attempt number \<open>k\<close> (counted from 0) in the words of the
  specification: start at one second, double with every attempt, cap at thirty seconds.\<close>

definition spec_delay :: "nat \<Rightarrow> duration" where
  "spec_delay k = min (2 ^ k * second) (30 * second)"

text \<open>The number of reconnecting goroutines in flight, and the relation between this
  number and the guard flag \<^verbatim>\<open>reconnecting\<close>.\<close>

definition p_count :: "psys \<Rightarrow> nat" where
  "p_count s = length (filter p_in_flight (p_tasks s))"

definition p_guarded :: "psys \<Rightarrow> bool" where
  "p_guarded s = (p_count s = (if p_reconnecting s then 1 else 0))"

definition c_count :: "csys \<Rightarrow> nat" where
  "c_count s = length (filter c_in_flight (c_tasks s))"

definition c_guarded :: "csys \<Rightarrow> bool" where
  "c_guarded s = (c_count s = (if c_reconnecting s then 1 else 0))"

text \<open>The answers under which \<^verbatim>\<open>connect\<close> returns an error when the instance is not
  connected.\<close>

definition p_connect_fails :: "broker \<Rightarrow> bool" where
  "p_connect_fails b = (\<not> (dial_ok b \<and> channel_ok b \<and> exchange_ok b))"

definition c_connect_fails :: "broker \<Rightarrow> bool" where
  "c_connect_fails b =
     (\<not> (dial_ok b \<and> channel_ok b \<and> qos_ok b \<and> exchange_ok b \<and> queue_ok b))"

text \<open>Two consecutive atomic sections of the reconnecting goroutine \<open>i\<close> of a consumer
  under the same answers: at the top of the loop these are the read of \<^verbatim>\<open>stopped\<close> and
  the sleep with the call of \<^verbatim>\<open>connect\<close>; after a successful \<^verbatim>\<open>connect\<close> they are the call
  of \<^verbatim>\<open>resubscribe\<close> and what follows it.\<close>

definition c_two_steps :: "nat \<Rightarrow> broker \<Rightarrow> cevent list" where
  "c_two_steps i b = [CRunReconnect i b, CRunReconnect i b]"




section \<open>The codec\<close>

subsection \<open>Numbers\<close>

lemma bit_length_pos: "0 < n \<Longrightarrow> bit_length n = Suc (bit_length (n div 2))"
  by (subst bit_length.simps) simp

lemma bit_length_nonpos: "n \<le> 0 \<Longrightarrow> bit_length n = 0"
  by (subst bit_length.simps) simp

lemma bit_length_bounds: "0 < n \<Longrightarrow> 2 ^ (bit_length n - 1) \<le> n \<and> n < 2 ^ bit_length n"
proof (induction n rule: bit_length.induct)
  case (1 n)
  show ?case
  proof (cases "n div 2 \<le> 0")
    case True
    then have "n = 1" using 1(2) by linarith
    then show ?thesis by (simp add: bit_length_pos bit_length_nonpos)
  next
    case False
    then have ih: "2 ^ (bit_length (n div 2) - 1) \<le> n div 2 \<and> n div 2 < 2 ^ bit_length (n div 2)"
      using 1 by simp
    have pos: "0 < bit_length (n div 2)" using False by (simp add: bit_length_pos)
    have b: "bit_length n = Suc (bit_length (n div 2))" using 1(2) by (rule bit_length_pos)
    have "2 * 2 ^ (bit_length (n div 2) - 1) \<le> n" using ih by linarith
    moreover have "2 * 2 ^ (bit_length (n div 2) - 1) = (2::int) ^ bit_length (n div 2)"
      using pos by (cases "bit_length (n div 2)") auto
    moreover have "n < 2 * 2 ^ bit_length (n div 2)" using ih by linarith
    ultimately show ?thesis by (simp add: b)
  qed
qed

lemma bit_length_le: "n < 2 ^ k \<Longrightarrow> bit_length n \<le> k"
proof (rule ccontr)
  assume a: "n < 2 ^ k" and c: "\<not> bit_length n \<le> k"
  then have k: "k \<le> bit_length n - 1" by simp
  have "0 < n" using c by (cases "n \<le> 0") (simp_all add: bit_length_nonpos)
  then have "2 ^ (bit_length n - 1) \<le> n" using bit_length_bounds by blast
  moreover have "(2::int) ^ k \<le> 2 ^ (bit_length n - 1)" using k by (rule power_increasing) simp
  ultimately show False using a by linarith
qed

text \<open>Every integer of magnitude at most \<open>2 ^ 53\<close> is a \<^verbatim>\<open>float64\<close>.\<close>

lemma float64_exact: "\<bar>n\<bar> \<le> 2 ^ 53 \<Longrightarrow> float64_of_int n = n"
proof (cases "\<bar>n\<bar> < 2 ^ 53")
  case True
  then have "bit_length \<bar>n\<bar> \<le> 53" by (rule bit_length_le)
  then show ?thesis by (simp add: float64_of_int_def Let_def)
next
  case False
  assume "\<bar>n\<bar> \<le> 2 ^ 53"
  then have a: "\<bar>n\<bar> = 9007199254740992" using False by simp
  have "float64_of_int 9007199254740992 = 9007199254740992" by code_simp
  moreover have "float64_of_int (- 9007199254740992) = - 9007199254740992" by code_simp
  moreover have "n = 9007199254740992 \<or> n = - 9007199254740992" using a by linarith
  ultimately show ?thesis by auto
qed

text \<open>An integer above \<open>2 ^ 53\<close> is rounded to a \<^verbatim>\<open>float64\<close> of at least \<open>2 ^ 53\<close>, and only
  \<open>2 ^ 53 + 1\<close> is rounded to \<open>2 ^ 53\<close>.\<close>

lemma float64_big:
  assumes "2 ^ 53 < x"
  shows "2 ^ 53 \<le> float64_of_int x \<and> (float64_of_int x = 2 ^ 53 \<longrightarrow> x = 2 ^ 53 + 1)"
proof -
  define l where "l = bit_length x"
  have "(0::int) < 2 ^ 53" by simp
  then have xpos: "0 < x" using assms by linarith
  have bounds: "2 ^ (l - 1) \<le> x" "x < 2 ^ l"
    using bit_length_bounds[OF xpos] by (simp_all add: l_def)
  have l54: "54 \<le> l"
  proof (rule ccontr)
    assume "\<not> 54 \<le> l"
    then have "l \<le> 53" by simp
    then have "(2::int) ^ l \<le> 2 ^ 53" by (rule power_increasing) simp
    then show False using bounds(2) assms by linarith
  qed
  define e where "e = l - 53"
  have e1: "1 \<le> e" and le: "l - 1 = 52 + e" using l54 by (simp_all add: e_def)
  define q where "q = x div 2 ^ e"
  define r where "r = x mod 2 ^ e"
  define m where "m = (if r > 2 ^ (e - 1) \<or> (r = 2 ^ (e - 1) \<and> odd q) then q + 1 else q)"
  have f: "float64_of_int x = m * 2 ^ e"
    using xpos l54
    by (simp add: float64_of_int_def Let_def l_def[symmetric] e_def[symmetric] q_def r_def m_def)
  have "(2::int) ^ (l - 1) = 2 ^ 52 * 2 ^ e" by (simp only: le power_add)
  then have "2 ^ 52 * 2 ^ e \<le> x" using bounds(1) by simp
  then have q52: "2 ^ 52 \<le> q"
    unfolding q_def by (metis (no_types, opaque_lifting) zdiv_mono1 nonzero_mult_div_cancel_right
        power_not_zero zero_less_numeral zero_less_power zero_neq_numeral)
  have mq: "q \<le> m" by (simp add: m_def)
  have p2: "(2::int) \<le> 2 ^ e" using e1 by (metis power_increasing power_one_right one_le_numeral)
  have ge: "2 ^ 52 * 2 \<le> m * 2 ^ e"
    using q52 mq p2 by (intro mult_mono) auto
  have 1: "2 ^ 53 \<le> float64_of_int x" using ge by (simp add: f)
  have 2: "x = 2 ^ 53 + 1" if eq: "float64_of_int x = 2 ^ 53"
  proof -
    have meq: "m * 2 ^ e = 2 ^ 52 * 2" using eq by (simp add: f)
    have m52: "m = 2 ^ 52"
    proof (rule ccontr)
      assume "m \<noteq> 2 ^ 52"
      then have "2 ^ 52 + 1 \<le> m" using q52 mq by linarith
      then have "(2 ^ 52 + 1) * 2 \<le> m * 2 ^ e" using p2 by (intro mult_mono) auto
      then show False using meq by simp
    qed
    have e_eq: "e = 1"
    proof (rule ccontr)
      assume "e \<noteq> 1"
      then have "2 \<le> e" using e1 by simp
      then have "(2::int) ^ 2 \<le> 2 ^ e" by (rule power_increasing) simp
      then have "2 ^ 52 * 2 ^ 2 \<le> m * 2 ^ e" using m52 by simp
      then show False using meq by simp
    qed
    have qm: "q = 2 ^ 52" using q52 mq m52 by linarith
    have "x = q * 2 + r" unfolding q_def r_def using e_eq by simp
    moreover have "0 \<le> r" "r < 2" unfolding r_def using e_eq by simp_all
    ultimately show ?thesis using assms qm by simp
  qed
  show ?thesis using 1 2 by blast
qed

text \<open>A \<^verbatim>\<open>float64\<close> of magnitude at most \<open>2 ^ 53\<close> is written with all its digits.\<close>

lemma shortest_small:
  assumes "0 \<le> n" "n \<le> 2 ^ 53"
  shows "shortest_from k n = n"
proof (induction k)
  case 0
  show ?case by simp
next
  case (Suc k)
  define p :: int where "p = 10 ^ Suc k"
  define lo where "lo = (n div p) * p"
  define hi where "hi = lo + p"
  have ppos: "0 < p" by (simp add: p_def)
  have lo_le: "lo \<le> n" unfolding lo_def using ppos
    by (metis mult.commute mult_div_mod_eq add_increasing2 pos_mod_sign order_refl)
  have lo0: "0 \<le> lo" unfolding lo_def using assms(1) ppos by (simp add: pos_imp_zdiv_nonneg_iff)
  have hi_gt: "n < hi"
  proof -
    have "n = lo + n mod p" unfolding lo_def by (simp add: mult.commute)
    moreover have "n mod p < p" using ppos by simp
    ultimately show ?thesis unfolding hi_def by linarith
  qed
  have flo: "float64_of_int lo = lo" using lo0 lo_le assms(2) by (intro float64_exact) simp
  have dvd: "10 dvd hi" unfolding hi_def lo_def p_def by simp
  have fhi: "float64_of_int hi \<noteq> n"
  proof (cases "hi \<le> 2 ^ 53")
    case True
    then have "float64_of_int hi = hi" using hi_gt assms(1) by (intro float64_exact) simp
    then show ?thesis using hi_gt by simp
  next
    case False
    then have b: "2 ^ 53 < hi" by simp
    show ?thesis
    proof
      assume eq: "float64_of_int hi = n"
      then have "n = 2 ^ 53" using float64_big[OF b] assms(2) by linarith
      then have "hi = 2 ^ 53 + 1" using float64_big[OF b] eq by simp
      then show False using dvd by simp
    qed
  qed
  show ?case
    using flo fhi Suc.IH
    by (simp add: Let_def p_def[symmetric] lo_def[symmetric] hi_def[symmetric] del: power_Suc)
qed

lemma es6_small: "\<bar>n\<bar> \<le> 2 ^ 53 \<Longrightarrow> es6_number n = n"
  using shortest_small[of "\<bar>n\<bar>" "digits10 \<bar>n\<bar>"]
  by (simp add: es6_number_def mult_sgn_abs)

subsection \<open>Values\<close>




lemma json_fits_small: "\<bar>n\<bar> \<le> 2 ^ 53 \<Longrightarrow> bit_length \<bar>float64_of_int n\<bar> \<le> 1024"
proof -
  assume a: "\<bar>n\<bar> \<le> 2 ^ 53"
  then have "\<bar>float64_of_int n\<bar> < 2 ^ 54" by (simp add: float64_exact)
  then have "bit_length \<bar>float64_of_int n\<bar> \<le> 54" by (rule bit_length_le)
  then show ?thesis by simp
qed




subsection \<open>Envelopes\<close>


lemma scenario_encodes:
  "json_Marshal_envelope \<lparr>EventType = ''region.created'', OccurredAt = scenario_time,
      ServiceName = ''regions'', Payload = scenario_payload\<rparr> = Inr scenario_body"
  by (simp add: json_Marshal_envelope_def scenario_payload_def scenario_body_def
      scenario_time_def)

lemma scenario_time_valid: "rfc3339 scenario_time"
  by (simp add: scenario_time_def rfc3339_def field_between_def digit_def zone_def days_in_def)

lemma scenario_decodes: "json_Unmarshal scenario_body = Inr scenario_envelope"
proof -
  have "float64_of_int 1 = 1" by (rule float64_exact) simp
  moreover have "bit_length \<bar>float64_of_int 1\<bar> \<le> 1024" by (rule json_fits_small) simp
  ultimately show ?thesis
    using scenario_time_valid
    by (simp add: json_Unmarshal_def scenario_body_def scenario_envelope_def lower_def
        zero_envelope_def last_wins_def AList.clearjunk.simps AList.delete_eq
        scenario_time_def)
qed

lemma scenario_payload_encodes:
  "json_Marshal (Payload scenario_envelope) = Inr scenario_payload_bytes"
proof -
  have "es6_number 1 = 1" by (rule es6_small) simp
  then show ?thesis
    by (simp add: json_Marshal_def scenario_envelope_def scenario_payload_bytes_def)
qed

lemma poison_refused: "json_Unmarshal (Raw text) = Inl (ErrJSON ''invalid character'')"
  by (simp add: json_Unmarshal_def)

section \<open>Publishing\<close>

text \<open>
  C1, as stated: \<^verbatim>\<open>PublishEvent\<close> returns an error if and only if the serialization of the
  envelope fails, and an outage of the broker is never returned to the caller.

  This fails. The publisher below is connected, and the broker has just closed the
  connection: \<^verbatim>\<open>channel.Publish\<close> is called and its error is returned, although the
  envelope was serialized.\<close>

theorem PublishEvent_outage_counterexample:
  "json_Marshal_envelope \<lparr>EventType = ''region.created'', OccurredAt = scenario_time,
      ServiceName = ''regions'', Payload = scenario_payload\<rparr> = Inr scenario_body \<and>
   p_channel (prun [PBrokerDrop 0] connected_publisher) = Some 0 \<and>
   p_connected (prun [PBrokerDrop 0] connected_publisher) = True \<and>
   p_open (prun [PBrokerDrop 0] connected_publisher) = [] \<and>
   returned (PublishEvent json_Marshal_envelope scenario_time
               (Some (ErrAMQP ''channel/connection is not open''))
               (prun [PBrokerDrop 0] connected_publisher)
               ''region.created'' scenario_payload) = Some ErrPublish"
  using scenario_encodes
  by (simp add: PublishEvent_def PublishEventWithConfig_def prun_def connected_publisher_def
      NewPublisher_def Publisher_connect_def broker_up_def)

text \<open>
  C1, amended. A publisher whose channel field is \<^verbatim>\<open>nil\<close> returns \<^verbatim>\<open>nil\<close>, publishes
  nothing and writes one debug line. A publisher that is connected and holds a channel
  returns an error if and only if the serialization of the envelope fails or
  \<^verbatim>\<open>channel.Publish\<close> returns an error: when the serialization fails it returns
  "failed to serialize event" and does not call \<^verbatim>\<open>channel.Publish\<close>; when the envelope
  is serialized and \<^verbatim>\<open>channel.Publish\<close> fails it returns "failed to publish message".
  Nothing is said of a publisher that is not connected and still holds the channel of
  a connection it has lost.\<close>

theorem PublishEventWithConfig_error_iff:
  "(p_channel p = None \<longrightarrow>
      PublishEventWithConfig marshal now publish p routingKey payload config =
        \<lparr>returned = None, sent = None,
         logged = [(Debug, ''Event '' @ routingKey @ '' not published (RabbitMQ not connected)'')]\<rparr>)
   \<and> (p_connected p \<and> p_channel p \<noteq> None \<longrightarrow>
        ((returned (PublishEventWithConfig marshal now publish p routingKey payload config)
            \<noteq> None) =
         ((\<exists>err. marshal \<lparr>EventType = routingKey, OccurredAt = now,
                           ServiceName = p_serviceName p, Payload = payload\<rparr> = Inl err)
          \<or> publish \<noteq> None))
        \<and> ((\<exists>err. marshal \<lparr>EventType = routingKey, OccurredAt = now,
                            ServiceName = p_serviceName p, Payload = payload\<rparr> = Inl err)
           \<longrightarrow> PublishEventWithConfig marshal now publish p routingKey payload config =
                 \<lparr>returned = Some ErrSerialize, sent = None, logged = []\<rparr>)
        \<and> ((\<exists>body. marshal \<lparr>EventType = routingKey, OccurredAt = now,
                             ServiceName = p_serviceName p, Payload = payload\<rparr> = Inr body)
            \<and> publish \<noteq> None
           \<longrightarrow> returned (PublishEventWithConfig marshal now publish p routingKey payload config)
                 = Some ErrPublish))"
  by (auto simp: PublishEventWithConfig_def Let_def split: sum.splits option.splits)

theorem PublishEventWithConfig_error_iff_witness:
  "p_channel (fst (NewPublisher [] ''events'' ''regions'' broker_up)) = None
   \<and> PublishEventWithConfig json_Marshal_envelope scenario_time None
       (fst (NewPublisher [] ''events'' ''regions'' broker_up))
       ''region.created'' scenario_payload None =
     \<lparr>returned = None, sent = None,
      logged = [(Debug, ''Event region.created not published (RabbitMQ not connected)'')]\<rparr>
   \<and> p_connected connected_publisher
   \<and> p_channel connected_publisher = Some 0
   \<and> returned (PublishEventWithConfig json_Marshal_envelope scenario_time None
        connected_publisher ''region.created'' scenario_payload None) = None
   \<and> json_Marshal_envelope \<lparr>EventType = ''region.created'', OccurredAt = scenario_time,
        ServiceName = p_serviceName connected_publisher, Payload = channel_payload\<rparr>
       = Inl (ErrJSON ''json: unsupported type'')
   \<and> PublishEventWithConfig json_Marshal_envelope scenario_time None
        connected_publisher ''region.created'' channel_payload None
       = \<lparr>returned = Some ErrSerialize, sent = None, logged = []\<rparr>
   \<and> json_Marshal_envelope \<lparr>EventType = ''region.created'', OccurredAt = scenario_time,
        ServiceName = p_serviceName connected_publisher, Payload = scenario_payload\<rparr>
       = Inr scenario_body
   \<and> returned (PublishEventWithConfig json_Marshal_envelope scenario_time
        (Some (ErrAMQP ''channel/connection is not open''))
        connected_publisher ''region.created'' scenario_payload None) = Some ErrPublish"
proof -
  have p: "p_connected connected_publisher" "p_channel connected_publisher = Some 0"
    "p_serviceName connected_publisher = ''regions''"
    by (simp_all add: connected_publisher_def NewPublisher_def Publisher_connect_def broker_up_def)
  have n: "p_channel (fst (NewPublisher [] ''events'' ''regions'' broker_up)) = None"
    by (simp add: NewPublisher_def)
  have bad: "json_Marshal_envelope \<lparr>EventType = ''region.created'', OccurredAt = scenario_time,
        ServiceName = p_serviceName connected_publisher, Payload = channel_payload\<rparr>
       = Inl (ErrJSON ''json: unsupported type'')"
    by (simp add: json_Marshal_envelope_def channel_payload_def)
  have good: "json_Marshal_envelope \<lparr>EventType = ''region.created'', OccurredAt = scenario_time,
        ServiceName = p_serviceName connected_publisher, Payload = scenario_payload\<rparr>
       = Inr scenario_body"
    using scenario_encodes by (simp add: p)
  show ?thesis
    using PublishEventWithConfig_error_iff [of
        "fst (NewPublisher [] ''events'' ''regions'' broker_up)" json_Marshal_envelope
        scenario_time None "''region.created''" scenario_payload None]
      PublishEventWithConfig_error_iff [of connected_publisher json_Marshal_envelope
        scenario_time None "''region.created''" scenario_payload None]
      PublishEventWithConfig_error_iff [of connected_publisher json_Marshal_envelope
        scenario_time None "''region.created''" channel_payload None]
      PublishEventWithConfig_error_iff [of connected_publisher json_Marshal_envelope
        scenario_time "Some (ErrAMQP ''channel/connection is not open'')" "''region.created''"
        scenario_payload None]
      p n bad good
    by simp
qed

section \<open>The dispatch loop\<close>

text \<open>
  C3, as stated: a consumer subscribed with the pattern \<^verbatim>\<open>region.*\<close> calls its handler for
  the delivery with the routing key \<^verbatim>\<open>region.created\<close>.

  This fails. The loop looks the handler up under the routing key of the delivery
  itself; no handler is stored under \<^verbatim>\<open>region.created\<close>, so the delivery is negatively
  acknowledged without requeue and no handler is called.\<close>

theorem glob_subscription_counterexample:
  "handleDeliveries json_Unmarshal json_Marshal
     (snd (Consumer_Subscribe broker_up ''region.*'' accept connected_consumer))
     [scenario_delivery]
   = [\<lparr>settled = Nack False, calls = []\<rparr>]"
  by (simp add: handle_delivery_def Consumer_Subscribe_def connected_consumer_def NewConsumer_def
      Consumer_connect_def broker_up_def scenario_delivery_def)

text \<open>
  C3, amended: a handler is called for a delivery if and only if a handler is registered
  under exactly the routing key of the delivery and the body decodes; the call then
  carries the event type of the envelope and the re-encoded payload. For the scenario:
  a consumer subscribed to \<^verbatim>\<open>region.created\<close> calls its handler with
  \<^verbatim>\<open>event_type == "region.created"\<close> and the payload \<^verbatim>\<open>{"id":1,"name":"North"}\<close>.\<close>

theorem handler_lookup_exact:
  "(calls (handle_delivery unmarshal marshal handlers delivery) \<noteq> []) =
     (\<exists>handler envelope payload.
         map_of handlers (RoutingKey delivery) = Some handler \<and>
         unmarshal (Body delivery) = Inr envelope \<and>
         marshal (Payload envelope) = Inr payload)
   \<and> (\<forall>c payload. (c, payload) \<in> set (calls (handle_delivery unmarshal marshal handlers delivery))
        \<longrightarrow> (\<exists>envelope. unmarshal (Body delivery) = Inr envelope \<and>
                 marshal (Payload envelope) = Inr payload \<and>
                 event_type c = EventType envelope))"
  by (auto simp: handle_delivery_def Let_def split: option.splits sum.splits)

theorem handler_lookup_exact_witness:
  "calls (handle_delivery json_Unmarshal json_Marshal
            (c_handlers (snd (Consumer_Subscribe broker_up ''region.created'' accept
                                connected_consumer)))
            scenario_delivery)
     = [(\<lparr>timeout = 30 * second, event_type = ''region.created'',
          occurred_at = scenario_time, service_name = ''regions'',
          request_id = ''1700000000000000000''\<rparr>, scenario_payload_bytes)]
   \<and> json_Unmarshal (Body scenario_delivery) = Inr scenario_envelope
   \<and> json_Marshal (Payload scenario_envelope) = Inr scenario_payload_bytes
   \<and> EventType scenario_envelope = ''region.created''"
proof -
  have d: "json_Unmarshal (Body scenario_delivery) = Inr scenario_envelope"
    using scenario_decodes by (simp add: scenario_delivery_def)
  have f: "EventType scenario_envelope = ''region.created''"
    "OccurredAt scenario_envelope = scenario_time" "ServiceName scenario_envelope = ''regions''"
    by (simp_all add: scenario_envelope_def)
  have k: "RoutingKey scenario_delivery = ''region.created''"
    "MessageId scenario_delivery = ''1700000000000000000''"
    by (simp_all add: scenario_delivery_def)
  show ?thesis
    using handler_lookup_exact [of json_Unmarshal json_Marshal
        "c_handlers (snd (Consumer_Subscribe broker_up ''region.created'' accept
                            connected_consumer))"
        scenario_delivery]
      d f k scenario_payload_encodes
    by (simp add: handle_delivery_def Consumer_Subscribe_def connected_consumer_def
        NewConsumer_def Consumer_connect_def broker_up_def accept_def)
qed

text \<open>
  C5: how the loop settles a delivery. If the body does not decode (\<^verbatim>\<open>json.Unmarshal\<close>
  fails, or the decoded payload cannot be encoded again), the delivery is negatively
  acknowledged without requeue and no handler is called. If no handler is registered
  under its routing key, it is negatively acknowledged without requeue. Otherwise the
  handler is called once, and the delivery is acknowledged when the handler returns
  \<^verbatim>\<open>nil\<close> and negatively acknowledged with requeue when it returns an error. The loop
  goes on to the next delivery in every case: it yields one outcome per delivery.\<close>

theorem handle_delivery_settles:
  "((\<exists>err. unmarshal (Body delivery) = Inl err) \<or>
    (\<exists>envelope err. unmarshal (Body delivery) = Inr envelope \<and>
                     marshal (Payload envelope) = Inl err)
      \<longrightarrow> handle_delivery unmarshal marshal handlers delivery
            = \<lparr>settled = Nack False, calls = []\<rparr>)
   \<and> (map_of handlers (RoutingKey delivery) = None
      \<longrightarrow> handle_delivery unmarshal marshal handlers delivery
            = \<lparr>settled = Nack False, calls = []\<rparr>)
   \<and> (\<forall>handler envelope payload.
        map_of handlers (RoutingKey delivery) = Some handler \<and>
        unmarshal (Body delivery) = Inr envelope \<and> marshal (Payload envelope) = Inr payload
      \<longrightarrow> (\<exists>c. calls (handle_delivery unmarshal marshal handlers delivery) = [(c, payload)] \<and>
               settled (handle_delivery unmarshal marshal handlers delivery) =
                 (case handler c delivery payload of None \<Rightarrow> Ack | Some err \<Rightarrow> Nack True)))
   \<and> handleDeliveries unmarshal marshal consumer deliveries =
       map (handle_delivery unmarshal marshal (c_handlers consumer)) deliveries"
proof -
  have "handleDeliveries unmarshal marshal consumer deliveries =
       map (handle_delivery unmarshal marshal (c_handlers consumer)) deliveries"
    by (induction deliveries) simp_all
  then show ?thesis
    by (auto simp: handle_delivery_def Let_def split: option.splits sum.splits)
qed

theorem handle_delivery_settles_witness:
  "json_Unmarshal (Body poison_delivery) = Inl (ErrJSON ''invalid character'')
   \<and> map_of [(''region.created'', reject)] (RoutingKey scenario_delivery) = Some reject
   \<and> map_of [(''city.updated'', accept)] (RoutingKey scenario_delivery) = None
   \<and> json_Unmarshal (Body scenario_delivery) = Inr scenario_envelope
   \<and> json_Marshal (Payload scenario_envelope) = Inr scenario_payload_bytes
   \<and> map settled (handleDeliveries json_Unmarshal json_Marshal
        (snd (Consumer_Subscribe broker_up ''region.created'' reject connected_consumer))
        [poison_delivery, scenario_delivery])
       = [Nack False, Nack True]
   \<and> map (length \<circ> calls) (handleDeliveries json_Unmarshal json_Marshal
        (snd (Consumer_Subscribe broker_up ''region.created'' reject connected_consumer))
        [poison_delivery, scenario_delivery])
       = [0, 1]
   \<and> handle_delivery json_Unmarshal json_Marshal [(''city.updated'', accept)]
        scenario_delivery = \<lparr>settled = Nack False, calls = []\<rparr>
   \<and> settled (handle_delivery json_Unmarshal json_Marshal
        [(''region.created'', accept)] scenario_delivery) = Ack"
proof -
  have d: "json_Unmarshal (Body scenario_delivery) = Inr scenario_envelope"
    using scenario_decodes by (simp add: scenario_delivery_def)
  have p: "json_Unmarshal (Body poison_delivery) = Inl (ErrJSON ''invalid character'')"
    by (simp add: poison_delivery_def poison_refused)
  have k: "RoutingKey scenario_delivery = ''region.created''"
    "RoutingKey poison_delivery = ''region.created''"
    by (simp_all add: scenario_delivery_def poison_delivery_def)
  show ?thesis
    using handle_delivery_settles [of json_Unmarshal poison_delivery json_Marshal
        "[(''region.created'', reject)]"
        "snd (Consumer_Subscribe broker_up ''region.created'' reject connected_consumer)"
        "[poison_delivery, scenario_delivery]"]
      handle_delivery_settles [of json_Unmarshal scenario_delivery json_Marshal
        "[(''region.created'', reject)]" connected_consumer "[]"]
      handle_delivery_settles [of json_Unmarshal scenario_delivery json_Marshal
        "[(''city.updated'', accept)]" connected_consumer "[]"]
      handle_delivery_settles [of json_Unmarshal scenario_delivery json_Marshal
        "[(''region.created'', accept)]" connected_consumer "[]"]
      d p k scenario_payload_encodes
    by (simp add: handle_delivery_def Consumer_Subscribe_def connected_consumer_def
        NewConsumer_def Consumer_connect_def broker_up_def accept_def reject_def)
qed

section \<open>The round trip of a payload\<close>




section \<open>Subscribing\<close>

text \<open>
  C4: subscribing the same key twice is idempotent, and only the first call of
  \<^verbatim>\<open>Subscribe\<close> starts the dispatch loop.

  The code takes \<^verbatim>\<open>len(c.handlers) == 1\<close> for "this is the first subscription". On a
  connected consumer the second call for the same, only, key \<open>K\<close> finds the map with one
  entry again: the handler is replaced, \<^verbatim>\<open>QueueBind\<close> is called a second time, and
  \<^verbatim>\<open>Consume\<close> is called a second time and a second goroutine running \<^verbatim>\<open>handleDeliveries\<close>
  is started on the same channel.\<close>

theorem Subscribe_same_key_twice:
  "(let s0 = fst (NewConsumer ''amqp://broker'' ex q sv broker_up);
        s1 = snd (Consumer_Subscribe broker_up K h1 s0);
        s2 = snd (Consumer_Subscribe broker_up K h2 s1)
    in c_loops s1 = [0] \<and> c_loops s2 = [0, 0] \<and> c_handlers s2 = [(K, h2)] \<and>
       c_binds s2 = [(0, K), (0, K)] \<and> c_open s2 = [0])"
  by (simp add: Consumer_Subscribe_def NewConsumer_def Consumer_connect_def broker_up_def Let_def)

section \<open>Construction\<close>

text \<open>
  C10: \<^verbatim>\<open>NewPublisher\<close> and \<^verbatim>\<open>NewConsumer\<close> never return an error. With an empty URL
  they return an instance without any goroutine: \<^verbatim>\<open>PublishEvent\<close> on it writes a debug
  line and returns \<^verbatim>\<open>nil\<close>, \<^verbatim>\<open>Subscribe\<close> on it stores the handler and returns \<^verbatim>\<open>nil\<close>.
  When the URL is set and the first \<^verbatim>\<open>connect\<close> fails, they return the instance with one
  goroutine running \<^verbatim>\<open>reconnect\<close>, which connects the instance (and, for the consumer,
  starts the dispatch loop) once the broker answers.\<close>

theorem constructors_never_fail:
  "snd (NewPublisher url ex sv b) = None
   \<and> snd (NewConsumer url ex q sv b) = None
   \<and> p_tasks (fst (NewPublisher [] ex sv b)) = []
   \<and> PublishEvent marshal now publish (fst (NewPublisher [] ex sv b)) k payload
       = \<lparr>returned = None, sent = None,
          logged = [(Debug, ''Event '' @ k @ '' not published (RabbitMQ not connected)'')]\<rparr>
   \<and> c_tasks (fst (NewConsumer [] ex q sv b)) = []
   \<and> Consumer_Subscribe b' k h (fst (NewConsumer [] ex q sv b))
       = (None, (fst (NewConsumer [] ex q sv b))\<lparr>c_handlers := [(k, h)]\<rparr>)
   \<and> (url \<noteq> [] \<and> \<not> (dial_ok b \<and> channel_ok b \<and> exchange_ok b)
      \<longrightarrow> p_tasks (fst (NewPublisher url ex sv b)) = [PReconnect PGuard]
          \<and> \<not> p_connected (fst (NewPublisher url ex sv b))
          \<and> p_connected (prun [PRunReconnect 0 b, PRunReconnect 0 broker_up]
                            (fst (NewPublisher url ex sv b)))
          \<and> p_channel (prun [PRunReconnect 0 b, PRunReconnect 0 broker_up]
                          (fst (NewPublisher url ex sv b))) = Some 0)
   \<and> (url \<noteq> [] \<and> \<not> (dial_ok b \<and> channel_ok b \<and> qos_ok b \<and> exchange_ok b \<and> queue_ok b)
      \<longrightarrow> c_tasks (fst (NewConsumer url ex q sv b)) = [CReconnect CGuard]
          \<and> \<not> c_connected (fst (NewConsumer url ex q sv b))
          \<and> c_connected (crun [CRunReconnect 0 b, CRunReconnect 0 b,
                                 CRunReconnect 0 broker_up, CRunReconnect 0 broker_up]
                            (fst (NewConsumer url ex q sv b)))
          \<and> c_loops (crun [CRunReconnect 0 b, CRunReconnect 0 b,
                             CRunReconnect 0 broker_up, CRunReconnect 0 broker_up]
                        (fst (NewConsumer url ex q sv b))) = [0])"
proof -
  have 1: "snd (NewPublisher url ex sv b) = None"
    by (simp add: NewPublisher_def Let_def split: prod.splits option.splits)
  have 2: "snd (NewConsumer url ex q sv b) = None"
    by (simp add: NewConsumer_def Let_def split: prod.splits option.splits)
  have 3: "p_tasks (fst (NewPublisher [] ex sv b)) = []"
    by (simp add: NewPublisher_def)
  have 4: "PublishEvent marshal now publish (fst (NewPublisher [] ex sv b)) k payload
       = \<lparr>returned = None, sent = None,
          logged = [(Debug, ''Event '' @ k @ '' not published (RabbitMQ not connected)'')]\<rparr>"
    by (simp add: NewPublisher_def PublishEvent_def PublishEventWithConfig_def)
  have 5: "c_tasks (fst (NewConsumer [] ex q sv b)) = []"
    by (simp add: NewConsumer_def)
  have 6: "Consumer_Subscribe b' k h (fst (NewConsumer [] ex q sv b))
       = (None, (fst (NewConsumer [] ex q sv b))\<lparr>c_handlers := [(k, h)]\<rparr>)"
    by (simp add: NewConsumer_def Consumer_Subscribe_def)
  have 7: "p_tasks (fst (NewPublisher url ex sv b)) = [PReconnect PGuard]
          \<and> \<not> p_connected (fst (NewPublisher url ex sv b))
          \<and> p_connected (prun [PRunReconnect 0 b, PRunReconnect 0 broker_up]
                            (fst (NewPublisher url ex sv b)))
          \<and> p_channel (prun [PRunReconnect 0 b, PRunReconnect 0 broker_up]
                          (fst (NewPublisher url ex sv b))) = Some 0"
    if "url \<noteq> [] \<and> \<not> (dial_ok b \<and> channel_ok b \<and> exchange_ok b)"
  proof -
    have "fst (NewPublisher url ex sv b) =
            \<lparr>p_connection = None, p_channel = None, p_exchangeName = ex,
             p_serviceName = sv, p_connected = False, p_reconnecting = False,
             p_tasks = [PReconnect PGuard], p_open = [], p_next = 0, p_slept = []\<rparr>"
      using that by (auto simp: NewPublisher_def Publisher_connect_def Let_def)
    then show ?thesis
      by (simp add: prun_def Publisher_reconnect_def Publisher_connect_def broker_up_def)
  qed
  have 8: "c_tasks (fst (NewConsumer url ex q sv b)) = [CReconnect CGuard]
          \<and> \<not> c_connected (fst (NewConsumer url ex q sv b))
          \<and> c_connected (crun [CRunReconnect 0 b, CRunReconnect 0 b,
                                 CRunReconnect 0 broker_up, CRunReconnect 0 broker_up]
                            (fst (NewConsumer url ex q sv b)))
          \<and> c_loops (crun [CRunReconnect 0 b, CRunReconnect 0 b,
                             CRunReconnect 0 broker_up, CRunReconnect 0 broker_up]
                        (fst (NewConsumer url ex q sv b))) = [0]"
    if "url \<noteq> [] \<and> \<not> (dial_ok b \<and> channel_ok b \<and> qos_ok b \<and> exchange_ok b \<and> queue_ok b)"
  proof -
    have "fst (NewConsumer url ex q sv b) =
            \<lparr>c_connection = None, c_channel = None, c_exchangeName = ex,
             c_queueName = q, c_serviceName = sv,
             c_handlers = [], c_connected = False, c_reconnecting = False,
             c_stopChan = False, c_stopped = False,
             c_tasks = [CReconnect CGuard], c_open = [], c_next = 0, c_slept = [],
             c_binds = [], c_loops = []\<rparr>"
      using that by (auto simp: NewConsumer_def Consumer_connect_def Let_def)
    then show ?thesis
      by (simp add: crun_def Consumer_reconnect_def Consumer_connect_def
          Consumer_resubscribe_def broker_up_def)
  qed
  show ?thesis
    using 1 2 3 4 5 6 7 8 by blast
qed

theorem constructors_never_fail_witness:
  "''amqp://broker'' \<noteq> []
   \<and> dial_ok broker_down = False
   \<and> snd (NewPublisher ''amqp://broker'' ''events'' ''regions'' broker_down) = None
   \<and> snd (NewConsumer ''amqp://broker'' ''events'' ''cities.q'' ''regions'' broker_down) = None
   \<and> p_tasks (fst (NewPublisher ''amqp://broker'' ''events'' ''regions'' broker_down))
       = [PReconnect PGuard]
   \<and> p_connected (prun [PRunReconnect 0 broker_down, PRunReconnect 0 broker_up]
        (fst (NewPublisher ''amqp://broker'' ''events'' ''regions'' broker_down)))
   \<and> c_tasks (fst (NewConsumer ''amqp://broker'' ''events'' ''cities.q'' ''regions'' broker_down))
       = [CReconnect CGuard]
   \<and> c_connected (crun [CRunReconnect 0 broker_down, CRunReconnect 0 broker_down,
                          CRunReconnect 0 broker_up, CRunReconnect 0 broker_up]
        (fst (NewConsumer ''amqp://broker'' ''events'' ''cities.q'' ''regions'' broker_down)))"
  using constructors_never_fail [of "''amqp://broker''" "''events''" "''regions''" broker_down
      "''cities.q''" json_Marshal_envelope scenario_time None "''region.created''"
      scenario_payload broker_up accept]
  by (simp add: broker_down_def)

section \<open>The connection lifecycle\<close>

subsection \<open>The guard on \<^verbatim>\<open>reconnecting\<close>\<close>

text \<open>Replacing one task changes the number of tasks with a property by what the old
  and the new task contribute.\<close>

lemma count_list_update:
  assumes "i < length xs"
  shows "length (filter P (xs[i := y])) + (if P (xs ! i) then 1 else 0)
         = length (filter P xs) + (if P y then 1 else 0)"
proof -
  have a: "xs = take i xs @ xs ! i # drop (Suc i) xs"
    using assms by (rule id_take_nth_drop)
  have b: "xs[i := y] = take i xs @ y # drop (Suc i) xs"
    using assms by (rule upd_conv_take_nth_drop)
  have "length (filter P xs) = length (filter P (take i xs @ xs ! i # drop (Suc i) xs))"
    using a by simp
  then show ?thesis unfolding b by simp
qed

lemma connect_tasks:
  "p_count (snd (Publisher_connect b s)) = p_count s"
  by (simp add: Publisher_connect_def p_count_def)

lemma connect_flag:
  "p_reconnecting (snd (Publisher_connect b s)) = p_reconnecting s"
  by (simp add: Publisher_connect_def)

lemma connect_len:
  "length (p_tasks s) \<le> length (p_tasks (snd (Publisher_connect b s)))"
  by (simp add: Publisher_connect_def)

lemma connect_nth:
  "i < length (p_tasks s) \<Longrightarrow> p_tasks (snd (Publisher_connect b s)) ! i = p_tasks s ! i"
  by (simp add: Publisher_connect_def nth_append)

lemma p_count_update:
  "i < length (p_tasks s) \<Longrightarrow>
   p_count (s\<lparr>p_tasks := (p_tasks s)[i := t]\<rparr>) + (if p_in_flight (p_tasks s ! i) then 1 else 0)
     = p_count s + (if p_in_flight t then 1 else 0)"
  unfolding p_count_def using count_list_update[of i "p_tasks s" p_in_flight t] by simp

lemma guarded_monitor: "p_guarded s \<Longrightarrow> p_guarded (Publisher_monitor i s)"
  using p_count_update[of i s PDone]
  by (auto simp: Publisher_monitor_def p_guarded_def p_count_def split: ptask.splits if_splits)

lemma guarded_reconnect: "p_guarded s \<Longrightarrow> p_guarded (Publisher_reconnect i b s)"
proof (cases "i < length (p_tasks s)")
  case False
  then show "p_guarded s \<Longrightarrow> ?thesis" by (simp add: Publisher_reconnect_def)
next
  case len: True
  assume g: "p_guarded s"
  show ?thesis
  proof (cases "p_tasks s ! i")
    case (PMonitor n)
    then show ?thesis using g len by (simp add: Publisher_reconnect_def)
  next
    case PDone
    then show ?thesis using g len by (simp add: Publisher_reconnect_def)
  next
    case (PReconnect pc)
    show ?thesis
    proof (cases pc)
      case PGuard
      then show ?thesis
        using g len PReconnect p_count_update[of i s PDone]
          p_count_update[of i s "PReconnect (PLoop (1 * second))"]
        by (auto simp: Publisher_reconnect_def p_guarded_def p_count_def)
    next
      case PDeferred
      then show ?thesis
        using g len PReconnect p_count_update[of i s PDone]
        by (auto simp: Publisher_reconnect_def p_guarded_def p_count_def split: if_splits)
    next
      case (PLoop d)
      define s0 where "s0 = s\<lparr>p_slept := p_slept s @ [d]\<rparr>"
      define s1 where "s1 = snd (Publisher_connect b s0)"
      have c: "p_count s1 = p_count s"
        unfolding s1_def using connect_tasks[of b s0] by (simp add: p_count_def s0_def)
      have f: "p_reconnecting s1 = p_reconnecting s"
        unfolding s1_def using connect_flag[of b s0] by (simp add: s0_def)
      have l: "i < length (p_tasks s1)"
        unfolding s1_def using connect_len[of s0 b] len by (simp add: s0_def)
      have n: "p_tasks s1 ! i = PReconnect (PLoop d)"
        unfolding s1_def using connect_nth[of i s0 b] len PReconnect PLoop by (simp add: s0_def)
      have u: "p_count (s1\<lparr>p_tasks := (p_tasks s1)[i := t]\<rparr>) = p_count s" if "p_in_flight t" for t
        using p_count_update[of i s1 t] l n c that by simp
      have g1: "p_guarded (s1\<lparr>p_tasks := (p_tasks s1)[i := t]\<rparr>)" if "p_in_flight t" for t
        using u[OF that] f g by (simp add: p_guarded_def)
      have "Publisher_reconnect i b s =
              (case fst (Publisher_connect b s0) of
                 Some err \<Rightarrow> s1\<lparr>p_tasks := (p_tasks s1)[i := PReconnect (PLoop (next_backoff d))]\<rparr>
               | None \<Rightarrow> s1\<lparr>p_tasks := (p_tasks s1)[i := PReconnect PDeferred]\<rparr>)"
        using len PReconnect PLoop
        by (simp add: Publisher_reconnect_def s0_def s1_def split: prod.splits option.splits)
      then show ?thesis
        using g1 by (simp split: option.splits)
    qed
  qed
qed

lemma guarded_step: "p_guarded s \<Longrightarrow> p_guarded (pstep e s)"
proof (cases e)
  case (PBrokerDrop n)
  then show "p_guarded s \<Longrightarrow> ?thesis" by (simp add: p_guarded_def p_count_def)
next
  case PCallClose
  then show "p_guarded s \<Longrightarrow> ?thesis"
    by (auto simp: p_guarded_def p_count_def Publisher_Close_def split: option.splits if_splits)
next
  case (PRunMonitor i)
  then show "p_guarded s \<Longrightarrow> ?thesis" by (simp add: guarded_monitor)
next
  case (PRunReconnect i b)
  then show "p_guarded s \<Longrightarrow> ?thesis" by (simp add: guarded_reconnect)
qed

lemma guarded_run: "p_guarded s \<Longrightarrow> p_guarded (prun es s)"
  unfolding prun_def by (induction es arbitrary: s) (auto simp: guarded_step)

lemma guarded_new: "p_guarded (fst (NewPublisher url ex sv b))"
  by (auto simp: NewPublisher_def Publisher_connect_def p_guarded_def p_count_def Let_def)


lemma c_count_update:
  "i < length (c_tasks s) \<Longrightarrow>
   c_count (s\<lparr>c_tasks := (c_tasks s)[i := t]\<rparr>) + (if c_in_flight (c_tasks s ! i) then 1 else 0)
     = c_count s + (if c_in_flight t then 1 else 0)"
  unfolding c_count_def using count_list_update[of i "c_tasks s" c_in_flight t] by simp

lemma c_connect_facts:
  "c_count (snd (Consumer_connect b s)) = c_count s"
  "c_reconnecting (snd (Consumer_connect b s)) = c_reconnecting s"
  "length (c_tasks s) \<le> length (c_tasks (snd (Consumer_connect b s)))"
  "i < length (c_tasks s) \<Longrightarrow> c_tasks (snd (Consumer_connect b s)) ! i = c_tasks s ! i"
  by (simp_all add: Consumer_connect_def c_count_def nth_append)

lemma c_resubscribe_facts:
  "c_tasks (snd (Consumer_resubscribe b s)) = c_tasks s"
  "c_reconnecting (snd (Consumer_resubscribe b s)) = c_reconnecting s"
  by (simp_all add: Consumer_resubscribe_def split: option.splits prod.splits)

lemma c_subscribe_facts:
  "c_tasks (snd (Consumer_Subscribe b k h s)) = c_tasks s"
  "c_reconnecting (snd (Consumer_Subscribe b k h s)) = c_reconnecting s"
  by (simp_all add: Consumer_Subscribe_def Let_def split: option.splits prod.splits)

lemma c_guarded_cong:
  "c_tasks s' = c_tasks s \<Longrightarrow> c_reconnecting s' = c_reconnecting s \<Longrightarrow> c_guarded s \<Longrightarrow> c_guarded s'"
  by (simp add: c_guarded_def c_count_def)

lemma c_guarded_move:
  assumes "c_guarded s" "i < length (c_tasks s)" "c_in_flight (c_tasks s ! i)" "c_in_flight t"
  shows "c_guarded (s\<lparr>c_tasks := (c_tasks s)[i := t]\<rparr>)"
  using c_count_update[of i s t] assms by (simp add: c_guarded_def)

lemma c_guarded_drop:
  assumes "c_guarded s" "i < length (c_tasks s)" "\<not> c_in_flight (c_tasks s ! i)"
  shows "c_guarded (s\<lparr>c_tasks := (c_tasks s)[i := CDone]\<rparr>)"
  using c_count_update[of i s CDone] assms by (simp add: c_guarded_def)

lemma c_guarded_monitor_closed: "c_guarded s \<Longrightarrow> c_guarded (Consumer_monitor_closed i s)"
  using c_count_update[of i s CDone]
  by (auto simp: Consumer_monitor_closed_def c_guarded_def c_count_def split: ctask.splits if_splits)

lemma c_guarded_monitor_stopped: "c_guarded s \<Longrightarrow> c_guarded (Consumer_monitor_stopped i s)"
  using c_count_update[of i s CDone]
  by (auto simp: Consumer_monitor_stopped_def c_guarded_def c_count_def Let_def
           split: ctask.splits if_splits option.splits)


lemma c_guarded_reconnect: "c_guarded s \<Longrightarrow> c_guarded (Consumer_reconnect i b s)"
proof (cases "i < length (c_tasks s)")
  case False
  then show "c_guarded s \<Longrightarrow> ?thesis" by (simp add: Consumer_reconnect_def)
next
  case len: True
  assume g: "c_guarded s"
  show ?thesis
  proof (cases "c_tasks s ! i")
    case (CMonitor n)
    then show ?thesis using g len by (simp add: Consumer_reconnect_def)
  next
    case CDone
    then show ?thesis using g len by (simp add: Consumer_reconnect_def)
  next
    case (CReconnect pc)
    show ?thesis
    proof (cases pc)
      case CGuard
      then show ?thesis
        using g len CReconnect c_count_update[of i s CDone]
          c_count_update[of i s "CReconnect (CLoop (1 * second))"]
        by (auto simp: Consumer_reconnect_def c_guarded_def c_count_def)
    next
      case CDeferred
      then show ?thesis
        using g len CReconnect c_count_update[of i s CDone]
        by (auto simp: Consumer_reconnect_def c_guarded_def c_count_def split: if_splits)
    next
      case (CLoop d)
      then show ?thesis
        using len CReconnect c_guarded_move[OF g len, of "CReconnect CDeferred"]
          c_guarded_move[OF g len, of "CReconnect (CSleep d)"]
        by (simp add: Consumer_reconnect_def)
    next
      case (CMarkDisconnected d)
      have "c_guarded (s\<lparr>c_connected := False\<rparr>)"
        using g by (simp add: c_guarded_def c_count_def)
      then have "c_guarded (s\<lparr>c_connected := False\<rparr>
                   \<lparr>c_tasks := (c_tasks (s\<lparr>c_connected := False\<rparr>))[i := CReconnect (CLoop d)]\<rparr>)"
        using len CReconnect CMarkDisconnected by (intro c_guarded_move) simp_all
      then show ?thesis
        using len CReconnect CMarkDisconnected by (simp add: Consumer_reconnect_def)
    next
      case (CSleep d)
      define s0 where "s0 = s\<lparr>c_slept := c_slept s @ [d]\<rparr>"
      define s1 where "s1 = snd (Consumer_connect b s0)"
      have g0: "c_guarded s0" using g by (simp add: s0_def c_guarded_def c_count_def)
      have g1: "c_guarded s1"
        unfolding s1_def using g0 c_connect_facts(1,2)[of b s0] by (simp add: c_guarded_def)
      have l: "i < length (c_tasks s1)"
        unfolding s1_def using c_connect_facts(3)[of s0 b] len by (simp add: s0_def)
      have n: "c_tasks s1 ! i = CReconnect (CSleep d)"
        unfolding s1_def using c_connect_facts(4)[of i s0 b] len CReconnect CSleep
        by (simp add: s0_def)
      have m: "c_guarded (s1\<lparr>c_tasks := (c_tasks s1)[i := t]\<rparr>)" if "c_in_flight t" for t
        using c_guarded_move[OF g1 l _ that] n by simp
      have "Consumer_reconnect i b s =
              (case fst (Consumer_connect b s0) of
                 Some err \<Rightarrow> s1\<lparr>c_tasks := (c_tasks s1)[i := CReconnect (CLoop (next_backoff d))]\<rparr>
               | None \<Rightarrow> s1\<lparr>c_tasks := (c_tasks s1)[i := CReconnect (CResubscribe d)]\<rparr>)"
        using len CReconnect CSleep
        by (simp add: Consumer_reconnect_def s0_def s1_def split: prod.splits option.splits)
      then show ?thesis using m by (simp split: option.splits)
    next
      case (CResubscribe d)
      define s1 where "s1 = snd (Consumer_resubscribe b s)"
      have g1: "c_guarded s1"
        unfolding s1_def using g c_resubscribe_facts[of b s] by (rule_tac c_guarded_cong) simp_all
      have l: "i < length (c_tasks s1)"
        unfolding s1_def using c_resubscribe_facts(1)[of b s] len by simp
      have n: "c_tasks s1 ! i = CReconnect (CResubscribe d)"
        unfolding s1_def using c_resubscribe_facts(1)[of b s] len CReconnect CResubscribe by simp
      have m: "c_guarded (s1\<lparr>c_tasks := (c_tasks s1)[i := t]\<rparr>)" if "c_in_flight t" for t
        using c_guarded_move[OF g1 l _ that] n by simp
      have "Consumer_reconnect i b s =
              (case fst (Consumer_resubscribe b s) of
                 Some err \<Rightarrow> s1\<lparr>c_tasks := (c_tasks s1)[i := CReconnect (CMarkDisconnected d)]\<rparr>
               | None \<Rightarrow> s1\<lparr>c_tasks := (c_tasks s1)[i := CReconnect CDeferred]\<rparr>)"
        using len CReconnect CResubscribe
        by (simp add: Consumer_reconnect_def s1_def split: prod.splits option.splits)
      then show ?thesis using m by (simp split: option.splits)
    qed
  qed
qed

lemma c_guarded_step: "c_guarded s \<Longrightarrow> c_guarded (cstep e s)"
proof (cases e)
  case (CBrokerDrop n)
  then show "c_guarded s \<Longrightarrow> ?thesis" by (simp add: c_guarded_def c_count_def)
next
  case CCallClose
  then show "c_guarded s \<Longrightarrow> ?thesis"
    by (auto simp: c_guarded_def c_count_def Consumer_Close_def Let_def split: option.splits if_splits)
next
  case (CCallSubscribe k h b)
  then show "c_guarded s \<Longrightarrow> ?thesis"
    using c_subscribe_facts[of b k h s] by (auto intro: c_guarded_cong)
next
  case (CMonitorClosed i)
  then show "c_guarded s \<Longrightarrow> ?thesis" by (simp add: c_guarded_monitor_closed)
next
  case (CMonitorStopped i)
  then show "c_guarded s \<Longrightarrow> ?thesis" by (simp add: c_guarded_monitor_stopped)
next
  case (CRunReconnect i b)
  then show "c_guarded s \<Longrightarrow> ?thesis" by (simp add: c_guarded_reconnect)
qed

lemma c_guarded_run: "c_guarded s \<Longrightarrow> c_guarded (crun es s)"
  unfolding crun_def by (induction es arbitrary: s) (auto simp: c_guarded_step)

lemma c_guarded_new: "c_guarded (fst (NewConsumer url ex q sv b))"
  by (auto simp: NewConsumer_def Consumer_connect_def c_guarded_def c_count_def Let_def)


lemma p_guard_returns:
  assumes "p_guarded s" "i < length (p_tasks s)" "p_tasks s ! i = PReconnect PGuard"
    "p_count s = 1"
  shows "Publisher_reconnect i b s = s\<lparr>p_tasks := (p_tasks s)[i := PDone]\<rparr>"
proof -
  have "p_reconnecting s"
  proof (rule ccontr)
    assume "\<not> p_reconnecting s"
    then have "p_count s = 0" using assms(1) by (simp add: p_guarded_def)
    then show False using assms(4) by simp
  qed
  then show ?thesis using assms(2,3) by (simp add: Publisher_reconnect_def)
qed

lemma c_guard_returns:
  assumes "c_guarded s" "i < length (c_tasks s)" "c_tasks s ! i = CReconnect CGuard"
    "c_count s = 1"
  shows "Consumer_reconnect i b s = s\<lparr>c_tasks := (c_tasks s)[i := CDone]\<rparr>"
proof -
  have "c_reconnecting s"
  proof (rule ccontr)
    assume "\<not> c_reconnecting s"
    then have "c_count s = 0" using assms(1) by (simp add: c_guarded_def)
    then show False using assms(4) by simp
  qed
  then show ?thesis using assms(2,3) by (simp add: Consumer_reconnect_def)
qed

lemma p_guarded_le: "p_guarded s \<Longrightarrow> p_count s \<le> 1"
  by (cases "p_reconnecting s") (simp_all add: p_guarded_def)

lemma c_guarded_le: "c_guarded s \<Longrightarrow> c_count s \<le> 1"
  by (cases "c_reconnecting s") (simp_all add: c_guarded_def)

text \<open>
  C9: at most one reconnecting goroutine is in flight at any time, for a publisher and
  for a consumer. After every schedule of events from a newly constructed instance, at
  most one goroutine is between the guard of \<^verbatim>\<open>reconnect\<close> and the end of its deferred
  function; and while one is, a goroutine that enters \<^verbatim>\<open>reconnect\<close> returns at the guard
  and changes nothing else.\<close>

theorem single_reconnect_in_flight:
  "p_count (prun es (fst (NewPublisher url ex sv b))) \<le> 1
   \<and> c_count (crun es' (fst (NewConsumer url' ex' q sv' b'))) \<le> 1
   \<and> (\<forall>i b1. i < length (p_tasks (prun es (fst (NewPublisher url ex sv b)))) \<and>
         p_tasks (prun es (fst (NewPublisher url ex sv b))) ! i = PReconnect PGuard \<and>
         p_count (prun es (fst (NewPublisher url ex sv b))) = 1
       \<longrightarrow> Publisher_reconnect i b1 (prun es (fst (NewPublisher url ex sv b)))
           = (prun es (fst (NewPublisher url ex sv b)))
               \<lparr>p_tasks := (p_tasks (prun es (fst (NewPublisher url ex sv b))))[i := PDone]\<rparr>)
   \<and> (\<forall>i b1. i < length (c_tasks (crun es' (fst (NewConsumer url' ex' q sv' b')))) \<and>
         c_tasks (crun es' (fst (NewConsumer url' ex' q sv' b'))) ! i = CReconnect CGuard \<and>
         c_count (crun es' (fst (NewConsumer url' ex' q sv' b'))) = 1
       \<longrightarrow> Consumer_reconnect i b1 (crun es' (fst (NewConsumer url' ex' q sv' b')))
           = (crun es' (fst (NewConsumer url' ex' q sv' b')))
               \<lparr>c_tasks := (c_tasks (crun es' (fst (NewConsumer url' ex' q sv' b'))))[i := CDone]\<rparr>)"
proof -
  define s where "s = prun es (fst (NewPublisher url ex sv b))"
  define t where "t = crun es' (fst (NewConsumer url' ex' q sv' b'))"
  have gs: "p_guarded s" unfolding s_def by (intro guarded_run guarded_new)
  have gt: "c_guarded t" unfolding t_def by (intro c_guarded_run c_guarded_new)
  have 1: "p_count s \<le> 1" using gs by (rule p_guarded_le)
  have 2: "c_count t \<le> 1" using gt by (rule c_guarded_le)
  have 3: "Publisher_reconnect i b1 s = s\<lparr>p_tasks := (p_tasks s)[i := PDone]\<rparr>"
    if "i < length (p_tasks s) \<and> p_tasks s ! i = PReconnect PGuard \<and> p_count s = 1" for i b1
    using that p_guard_returns[OF gs, of i b1] by blast
  have 4: "Consumer_reconnect i b1 t = t\<lparr>c_tasks := (c_tasks t)[i := CDone]\<rparr>"
    if "i < length (c_tasks t) \<and> c_tasks t ! i = CReconnect CGuard \<and> c_count t = 1" for i b1
    using that c_guard_returns[OF gt, of i b1] by blast
  show ?thesis
    unfolding s_def[symmetric] t_def[symmetric]
    using 1 2 3 4 by blast
qed

theorem single_reconnect_in_flight_witness:
  "p_tasks (prun [PBrokerDrop 0, PRunMonitor 0, PRunReconnect 1 broker_up,
                  PRunReconnect 1 broker_up, PBrokerDrop 1, PRunMonitor 2]
              (fst (NewPublisher ''amqp://broker'' ''events'' ''regions'' broker_up)))
     = [PDone, PReconnect PDeferred, PDone, PReconnect PGuard]
   \<and> p_tasks (Publisher_reconnect 3 broker_up
        (prun [PBrokerDrop 0, PRunMonitor 0, PRunReconnect 1 broker_up,
               PRunReconnect 1 broker_up, PBrokerDrop 1, PRunMonitor 2]
           (fst (NewPublisher ''amqp://broker'' ''events'' ''regions'' broker_up))))
     = [PDone, PReconnect PDeferred, PDone, PDone]
   \<and> c_tasks (crun [CBrokerDrop 0, CMonitorClosed 0, CRunReconnect 1 broker_up,
                  CRunReconnect 1 broker_up, CRunReconnect 1 broker_up,
                  CBrokerDrop 1, CMonitorClosed 2]
              (fst (NewConsumer ''amqp://broker'' ''events'' ''cities.q'' ''cities'' broker_up)))
     = [CDone, CReconnect (CResubscribe (1 * second)), CDone, CReconnect CGuard]
   \<and> c_tasks (Consumer_reconnect 3 broker_up
        (crun [CBrokerDrop 0, CMonitorClosed 0, CRunReconnect 1 broker_up,
               CRunReconnect 1 broker_up, CRunReconnect 1 broker_up,
               CBrokerDrop 1, CMonitorClosed 2]
           (fst (NewConsumer ''amqp://broker'' ''events'' ''cities.q'' ''cities'' broker_up))))
     = [CDone, CReconnect (CResubscribe (1 * second)), CDone, CDone]"
proof -
  define s where "s = prun [PBrokerDrop 0, PRunMonitor 0, PRunReconnect 1 broker_up,
                  PRunReconnect 1 broker_up, PBrokerDrop 1, PRunMonitor 2]
              (fst (NewPublisher ''amqp://broker'' ''events'' ''regions'' broker_up))"
  define t where "t = crun [CBrokerDrop 0, CMonitorClosed 0, CRunReconnect 1 broker_up,
                  CRunReconnect 1 broker_up, CRunReconnect 1 broker_up,
                  CBrokerDrop 1, CMonitorClosed 2]
              (fst (NewConsumer ''amqp://broker'' ''events'' ''cities.q'' ''cities'' broker_up))"
  have s: "p_tasks s = [PDone, PReconnect PDeferred, PDone, PReconnect PGuard]"
    unfolding s_def
    by (simp add: prun_def NewPublisher_def Publisher_connect_def Publisher_monitor_def
        Publisher_reconnect_def broker_up_def)
  have t: "c_tasks t = [CDone, CReconnect (CResubscribe (1 * second)), CDone, CReconnect CGuard]"
    unfolding t_def
    by (simp add: crun_def NewConsumer_def Consumer_connect_def Consumer_monitor_closed_def
        Consumer_reconnect_def broker_up_def)
  have hs: "3 < length (p_tasks s) \<and> p_tasks s ! 3 = PReconnect PGuard \<and> p_count s = 1"
    by (simp add: s p_count_def)
  have ht: "3 < length (c_tasks t) \<and> c_tasks t ! 3 = CReconnect CGuard \<and> c_count t = 1"
    by (simp add: t c_count_def)
  note inst = single_reconnect_in_flight [of
      "[PBrokerDrop 0, PRunMonitor 0, PRunReconnect 1 broker_up,
        PRunReconnect 1 broker_up, PBrokerDrop 1, PRunMonitor 2]"
      "''amqp://broker''" "''events''" "''regions''" broker_up
      "[CBrokerDrop 0, CMonitorClosed 0, CRunReconnect 1 broker_up,
        CRunReconnect 1 broker_up, CRunReconnect 1 broker_up,
        CBrokerDrop 1, CMonitorClosed 2]"
      "''amqp://broker''" "''events''" "''cities.q''" "''cities''" broker_up,
      folded s_def t_def]
  have ps: "Publisher_reconnect 3 broker_up s = s\<lparr>p_tasks := (p_tasks s)[3 := PDone]\<rparr>"
    using inst hs by blast
  have pt: "Consumer_reconnect 3 broker_up t = t\<lparr>c_tasks := (c_tasks t)[3 := CDone]\<rparr>"
    using inst ht by blast
  show ?thesis
    unfolding s_def[symmetric] t_def[symmetric] by (simp add: ps pt s t)
qed

subsection \<open>\<^verbatim>\<open>Close\<close>\<close>

text \<open>
  C2: \<^verbatim>\<open>Close\<close> is terminal; no reconnection is started after it.

  For the publisher this fails. \<^verbatim>\<open>Publisher.Close\<close> closes the connection; the goroutine
  that waits on the close notification then clears \<^verbatim>\<open>connected\<close> and starts
  \<^verbatim>\<open>reconnect\<close>, whose guard reads \<^verbatim>\<open>reconnecting\<close> only: it sleeps one second, dials,
  and the publisher is connected again, on a new connection. The consumer has the flag
  \<^verbatim>\<open>stopped\<close>, which \<^verbatim>\<open>Consumer.reconnect\<close> reads at its guard: there the goroutine
  started by the close notification returns without sleeping or dialling.\<close>

theorem Publisher_reconnects_after_Close:
  "p_open (prun [PCallClose] connected_publisher) = []
   \<and> p_connected (prun [PCallClose] connected_publisher) = False
   \<and> p_tasks (prun [PCallClose, PRunMonitor 0] connected_publisher)
       = [PDone, PReconnect PGuard]
   \<and> p_slept (prun [PCallClose, PRunMonitor 0, PRunReconnect 1 broker_up,
                     PRunReconnect 1 broker_up] connected_publisher) = [1 * second]
   \<and> p_connected (prun [PCallClose, PRunMonitor 0, PRunReconnect 1 broker_up,
                         PRunReconnect 1 broker_up] connected_publisher) = True
   \<and> p_connection (prun [PCallClose, PRunMonitor 0, PRunReconnect 1 broker_up,
                          PRunReconnect 1 broker_up] connected_publisher) = Some 1
   \<and> p_open (prun [PCallClose, PRunMonitor 0, PRunReconnect 1 broker_up,
                    PRunReconnect 1 broker_up] connected_publisher) = [1]
   \<and> c_tasks (crun [CCallClose, CMonitorClosed 0, CRunReconnect 1 broker_up]
                connected_consumer) = [CDone, CDone]
   \<and> c_slept (crun [CCallClose, CMonitorClosed 0, CRunReconnect 1 broker_up]
                connected_consumer) = []
   \<and> c_open (crun [CCallClose, CMonitorClosed 0, CRunReconnect 1 broker_up]
               connected_consumer) = []"
proof -
  have p0: "connected_publisher =
      \<lparr>p_connection = Some 0, p_channel = Some 0, p_exchangeName = ''events'',
       p_serviceName = ''regions'', p_connected = True, p_reconnecting = False,
       p_tasks = [PMonitor 0], p_open = [0], p_next = 1, p_slept = []\<rparr>"
    by (simp add: connected_publisher_def NewPublisher_def Publisher_connect_def broker_up_def)
  have c0: "connected_consumer =
      \<lparr>c_connection = Some 0, c_channel = Some 0, c_exchangeName = ''events'',
       c_queueName = ''cities.q'', c_serviceName = ''cities'', c_handlers = [],
       c_connected = True, c_reconnecting = False, c_stopChan = False, c_stopped = False,
       c_tasks = [CMonitor 0], c_open = [0], c_next = 1, c_slept = [],
       c_binds = [], c_loops = []\<rparr>"
    by (simp add: connected_consumer_def NewConsumer_def Consumer_connect_def broker_up_def)
  show ?thesis
    unfolding p0 c0
    by (simp add: prun_def crun_def Publisher_Close_def Publisher_monitor_def
        Publisher_reconnect_def Publisher_connect_def Consumer_Close_def
        Consumer_monitor_closed_def Consumer_reconnect_def broker_up_def)
qed

subsection \<open>Backoff\<close>

lemma next_backoff_min: "next_backoff d = min (2 * d) (30 * second)"
  by (simp add: next_backoff_def maxBackoff_def Let_def min_def mult.commute)

lemma next_backoff_spec_delay: "next_backoff (spec_delay k) = spec_delay (Suc k)"
  by (simp add: next_backoff_min spec_delay_def second_def min_def)

lemma spec_delay_first:
  "map spec_delay [0..<7] =
     [1 * second, 2 * second, 4 * second, 8 * second, 16 * second, 30 * second, 30 * second]"
  by (simp add: spec_delay_def second_def upt_rec)

lemma spec_delay_capped: "5 \<le> k \<Longrightarrow> spec_delay k = 30 * second"
proof -
  assume "5 \<le> k"
  then have "(2::int) ^ 5 \<le> 2 ^ k" by (rule power_increasing) simp
  then show ?thesis by (simp add: spec_delay_def second_def min_def)
qed

lemma upt_shift: "[k..<Suc (k + n)] = k # [Suc k..<Suc (k + n)]"
  by (rule upt_conv_Cons) simp

lemma p_loop_step_fail:
  assumes "i < length (p_tasks s)" "p_tasks s ! i = PReconnect (PLoop d)"
    "\<not> p_connected s" "p_connect_fails b"
  shows "Publisher_reconnect i b s =
           s\<lparr>p_slept := p_slept s @ [d],
             p_tasks := (p_tasks s)[i := PReconnect (PLoop (next_backoff d))]\<rparr>"
  using assms by (auto simp: Publisher_reconnect_def Publisher_connect_def p_connect_fails_def)

lemma p_loop_run_fail:
  assumes "i < length (p_tasks s)" "p_tasks s ! i = PReconnect (PLoop (spec_delay k))"
    "\<not> p_connected s" "\<forall>b\<in>set bs. p_connect_fails b"
  shows "prun (map (PRunReconnect i) bs) s =
           s\<lparr>p_slept := p_slept s @ map spec_delay [k..<k + length bs],
             p_tasks := (p_tasks s)[i := PReconnect (PLoop (spec_delay (k + length bs)))]\<rparr>"
  using assms
proof (induction bs arbitrary: s k)
  case Nil
  have "(p_tasks s)[i := PReconnect (PLoop (spec_delay k))] = p_tasks s"
    using Nil.prems(2) by (metis list_update_id)
  then show ?case by (simp add: prun_def)
next
  case (Cons b bs)
  let ?s1 = "s\<lparr>p_slept := p_slept s @ [spec_delay k],
               p_tasks := (p_tasks s)[i := PReconnect (PLoop (spec_delay (Suc k)))]\<rparr>"
  have step: "Publisher_reconnect i b s = ?s1"
    using p_loop_step_fail[of i s "spec_delay k" b] Cons.prems
    by (simp add: next_backoff_spec_delay)
  have "prun (map (PRunReconnect i) bs) ?s1 =
          ?s1\<lparr>p_slept := p_slept ?s1 @ map spec_delay [Suc k..<Suc k + length bs],
               p_tasks := (p_tasks ?s1)[i := PReconnect (PLoop (spec_delay (Suc k + length bs)))]\<rparr>"
    using Cons.prems by (intro Cons.IH) simp_all
  then show ?case
    using step upt_shift[of k "length bs"] by (simp add: prun_def del: upt_Suc)
qed

lemma p_reconnect_run:
  assumes "i < length (p_tasks s)" "p_tasks s ! i = PReconnect PGuard"
    "\<not> p_reconnecting s" "\<not> p_connected s" "\<forall>b\<in>set bs. p_connect_fails b"
  shows "prun (PRunReconnect i b0 # map (PRunReconnect i) bs) s =
           s\<lparr>p_reconnecting := True,
             p_slept := p_slept s @ map spec_delay [0..<length bs],
             p_tasks := (p_tasks s)[i := PReconnect (PLoop (spec_delay (length bs)))]\<rparr>"
proof -
  let ?s1 = "s\<lparr>p_reconnecting := True,
               p_tasks := (p_tasks s)[i := PReconnect (PLoop (spec_delay 0))]\<rparr>"
  have g: "Publisher_reconnect i b0 s = ?s1"
    using assms(1-3) by (simp add: Publisher_reconnect_def spec_delay_def second_def)
  have "prun (map (PRunReconnect i) bs) ?s1 =
          ?s1\<lparr>p_slept := p_slept ?s1 @ map spec_delay [0..<0 + length bs],
               p_tasks := (p_tasks ?s1)[i := PReconnect (PLoop (spec_delay (0 + length bs)))]\<rparr>"
    using assms by (intro p_loop_run_fail) simp_all
  then show ?thesis using g by (simp add: prun_def)
qed

lemma c_loop_step_fail:
  assumes "i < length (c_tasks s)" "c_tasks s ! i = CReconnect (CLoop d)"
    "\<not> c_connected s" "\<not> c_stopped s" "c_connect_fails b"
  shows "crun (c_two_steps i b) s =
           s\<lparr>c_slept := c_slept s @ [d],
             c_tasks := (c_tasks s)[i := CReconnect (CLoop (next_backoff d))]\<rparr>"
  using assms
  by (auto simp: crun_def c_two_steps_def Consumer_reconnect_def Consumer_connect_def
      c_connect_fails_def)

lemma c_loop_run_fail:
  assumes "i < length (c_tasks s)" "c_tasks s ! i = CReconnect (CLoop (spec_delay k))"
    "\<not> c_connected s" "\<not> c_stopped s" "\<forall>b\<in>set bs. c_connect_fails b"
  shows "crun (concat (map (c_two_steps i) bs)) s =
           s\<lparr>c_slept := c_slept s @ map spec_delay [k..<k + length bs],
             c_tasks := (c_tasks s)[i := CReconnect (CLoop (spec_delay (k + length bs)))]\<rparr>"
  using assms
proof (induction bs arbitrary: s k)
  case Nil
  have "(c_tasks s)[i := CReconnect (CLoop (spec_delay k))] = c_tasks s"
    using Nil.prems(2) by (metis list_update_id)
  then show ?case by (simp add: crun_def)
next
  case (Cons b bs)
  let ?s1 = "s\<lparr>c_slept := c_slept s @ [spec_delay k],
               c_tasks := (c_tasks s)[i := CReconnect (CLoop (spec_delay (Suc k)))]\<rparr>"
  have step: "crun (c_two_steps i b) s = ?s1"
    using c_loop_step_fail[of i s "spec_delay k" b] Cons.prems
    by (simp add: next_backoff_spec_delay)
  have "crun (concat (map (c_two_steps i) bs)) ?s1 =
          ?s1\<lparr>c_slept := c_slept ?s1 @ map spec_delay [Suc k..<Suc k + length bs],
               c_tasks := (c_tasks ?s1)[i := CReconnect (CLoop (spec_delay (Suc k + length bs)))]\<rparr>"
    using Cons.prems by (intro Cons.IH) simp_all
  moreover have "crun (concat (map (c_two_steps i) (b # bs))) s
      = crun (concat (map (c_two_steps i) bs)) (crun (c_two_steps i b) s)"
    by (simp add: crun_def)
  ultimately show ?case
    using step upt_shift[of k "length bs"] by (simp del: upt_Suc)
qed

lemma c_reconnect_run:
  assumes "i < length (c_tasks s)" "c_tasks s ! i = CReconnect CGuard"
    "\<not> c_reconnecting s" "\<not> c_stopped s" "\<not> c_connected s" "\<forall>b\<in>set bs. c_connect_fails b"
  shows "crun (CRunReconnect i b0 # concat (map (c_two_steps i) bs)) s =
           s\<lparr>c_reconnecting := True,
             c_slept := c_slept s @ map spec_delay [0..<length bs],
             c_tasks := (c_tasks s)[i := CReconnect (CLoop (spec_delay (length bs)))]\<rparr>"
proof -
  let ?s1 = "s\<lparr>c_reconnecting := True,
               c_tasks := (c_tasks s)[i := CReconnect (CLoop (spec_delay 0))]\<rparr>"
  have g: "Consumer_reconnect i b0 s = ?s1"
    using assms(1-4) by (simp add: Consumer_reconnect_def spec_delay_def second_def)
  have "crun (concat (map (c_two_steps i) bs)) ?s1 =
          ?s1\<lparr>c_slept := c_slept ?s1 @ map spec_delay [0..<0 + length bs],
               c_tasks := (c_tasks ?s1)[i := CReconnect (CLoop (spec_delay (0 + length bs)))]\<rparr>"
    using assms by (intro c_loop_run_fail) simp_all
  then show ?thesis using g by (simp add: crun_def)
qed

lemma c_turn_connects:
  assumes "i < length (c_tasks s)" "c_tasks s ! i = CReconnect (CLoop d)"
    "\<not> c_connected s" "\<not> c_stopped s" "\<not> c_connect_fails b"
  shows "crun (c_two_steps i b) s =
           s\<lparr>c_slept := c_slept s @ [d],
             c_connection := Some (c_next s), c_channel := Some (c_next s),
             c_connected := True,
             c_tasks := (c_tasks s)[i := CReconnect (CResubscribe d)] @ [CMonitor (c_next s)],
             c_open := c_next s # c_open s,
             c_next := Suc (c_next s)\<rparr>"
  using assms
  by (auto simp: crun_def c_two_steps_def Consumer_reconnect_def Consumer_connect_def
      c_connect_fails_def nth_append list_update_append)

lemma c_turn_resubscribe_fails:
  assumes "i < length (c_tasks s)" "c_tasks s ! i = CReconnect (CLoop d)"
    "\<not> c_connected s" "\<not> c_stopped s" "\<not> c_connect_fails b"
    "fst (Consumer_resubscribe b' (crun (c_two_steps i b) s)) \<noteq> None"
  shows "c_tasks (crun (c_two_steps i b @ c_two_steps i b') s) ! i = CReconnect (CLoop d)
       \<and> c_slept (crun (c_two_steps i b @ c_two_steps i b') s) = c_slept s @ [d]
       \<and> \<not> c_connected (crun (c_two_steps i b @ c_two_steps i b') s)
       \<and> \<not> c_stopped (crun (c_two_steps i b @ c_two_steps i b') s)"
proof -
  define s2 where "s2 = crun (c_two_steps i b) s"
  have s2: "s2 = s\<lparr>c_slept := c_slept s @ [d],
                   c_connection := Some (c_next s), c_channel := Some (c_next s),
                   c_connected := True,
                   c_tasks := (c_tasks s)[i := CReconnect (CResubscribe d)] @ [CMonitor (c_next s)],
                   c_open := c_next s # c_open s,
                   c_next := Suc (c_next s)\<rparr>"
    unfolding s2_def using assms(1-5) by (rule c_turn_connects)
  have l: "i < length (c_tasks s2)" and n: "c_tasks s2 ! i = CReconnect (CResubscribe d)"
    using assms(1) by (simp_all add: s2 nth_append)
  define s3 where "s3 = snd (Consumer_resubscribe b' s2)"
  have t3: "c_tasks s3 = c_tasks s2" and sl3: "c_slept s3 = c_slept s2"
    and st3: "c_stopped s3 = c_stopped s2"
    by (simp_all add: s3_def Consumer_resubscribe_def split: option.splits prod.splits)
  obtain err where e: "fst (Consumer_resubscribe b' s2) = Some err"
    using assms(6) unfolding s2_def by auto
  have r3: "Consumer_reconnect i b' s2 =
              s3\<lparr>c_tasks := (c_tasks s3)[i := CReconnect (CMarkDisconnected d)]\<rparr>"
    using l n e by (cases "Consumer_resubscribe b' s2") (simp add: Consumer_reconnect_def s3_def)
  have "crun (c_two_steps i b @ c_two_steps i b') s
          = Consumer_reconnect i b' (Consumer_reconnect i b' s2)"
    by (simp add: crun_def s2_def c_two_steps_def)
  then show ?thesis
    using r3 l t3 sl3 st3 assms(4) by (simp add: Consumer_reconnect_def s2)
qed

lemma c_turn_resubscribe_ok:
  assumes "i < length (c_tasks s)" "c_tasks s ! i = CReconnect (CLoop d)"
    "\<not> c_connected s" "\<not> c_stopped s" "\<not> c_connect_fails b"
    "fst (Consumer_resubscribe b' (crun (c_two_steps i b) s)) = None"
  shows "c_tasks (crun (c_two_steps i b @ c_two_steps i b') s) ! i = CDone
       \<and> c_slept (crun (c_two_steps i b @ c_two_steps i b') s) = c_slept s @ [d]
       \<and> c_connected (crun (c_two_steps i b @ c_two_steps i b') s)
       \<and> \<not> c_reconnecting (crun (c_two_steps i b @ c_two_steps i b') s)"
proof -
  define s2 where "s2 = crun (c_two_steps i b) s"
  have s2: "s2 = s\<lparr>c_slept := c_slept s @ [d],
                   c_connection := Some (c_next s), c_channel := Some (c_next s),
                   c_connected := True,
                   c_tasks := (c_tasks s)[i := CReconnect (CResubscribe d)] @ [CMonitor (c_next s)],
                   c_open := c_next s # c_open s,
                   c_next := Suc (c_next s)\<rparr>"
    unfolding s2_def using assms(1-5) by (rule c_turn_connects)
  have l: "i < length (c_tasks s2)" and n: "c_tasks s2 ! i = CReconnect (CResubscribe d)"
    using assms(1) by (simp_all add: s2 nth_append)
  define s3 where "s3 = snd (Consumer_resubscribe b' s2)"
  have t3: "c_tasks s3 = c_tasks s2" and sl3: "c_slept s3 = c_slept s2"
    and co3: "c_connected s3 = c_connected s2"
    by (simp_all add: s3_def Consumer_resubscribe_def split: option.splits prod.splits)
  have e: "fst (Consumer_resubscribe b' s2) = None"
    using assms(6) unfolding s2_def by simp
  have r3: "Consumer_reconnect i b' s2 = s3\<lparr>c_tasks := (c_tasks s3)[i := CReconnect CDeferred]\<rparr>"
    using l n e by (cases "Consumer_resubscribe b' s2") (simp add: Consumer_reconnect_def s3_def)
  have "crun (c_two_steps i b @ c_two_steps i b') s
          = Consumer_reconnect i b' (Consumer_reconnect i b' s2)"
    by (simp add: crun_def s2_def c_two_steps_def)
  then show ?thesis
    using r3 l t3 sl3 co3 by (simp add: Consumer_reconnect_def s2)
qed

text \<open>
  C6, as stated: in every run of the reconnect loop the delays between consecutive
  connection attempts are exactly 1s, 2s, 4s, 8s, 16s, 30s, 30s, ...

  This fails for the consumer. Its first attempt below connects, but \<^verbatim>\<open>resubscribe\<close>
  fails (\<^verbatim>\<open>Consume\<close> is refused): the loop continues without touching \<^verbatim>\<open>backoff\<close>, and
  the second attempt comes after one more second, not after two.\<close>

theorem consumer_backoff_counterexample:
  "c_slept (crun (CRunReconnect 0 broker_down # c_two_steps 0 broker_no_consume
                    @ c_two_steps 0 broker_no_consume @ c_two_steps 0 broker_no_consume)
              (fst (NewConsumer ''amqp://broker'' ''events'' ''cities.q'' ''cities'' broker_down)))
     = [1 * second, 1 * second]
   \<and> map spec_delay [0..<2] = [1 * second, 2 * second]"
proof -
  have c0: "fst (NewConsumer ''amqp://broker'' ''events'' ''cities.q'' ''cities'' broker_down) =
      \<lparr>c_connection = None, c_channel = None, c_exchangeName = ''events'',
       c_queueName = ''cities.q'', c_serviceName = ''cities'', c_handlers = [],
       c_connected = False, c_reconnecting = False, c_stopChan = False, c_stopped = False,
       c_tasks = [CReconnect CGuard], c_open = [], c_next = 0, c_slept = [],
       c_binds = [], c_loops = []\<rparr>"
    by (simp add: NewConsumer_def Consumer_connect_def broker_down_def)
  have "c_slept (crun (CRunReconnect 0 broker_down # c_two_steps 0 broker_no_consume
                    @ c_two_steps 0 broker_no_consume @ c_two_steps 0 broker_no_consume)
              (fst (NewConsumer ''amqp://broker'' ''events'' ''cities.q'' ''cities'' broker_down)))
     = [1 * second, 1 * second]"
    unfolding c0
    by (simp add: crun_def c_two_steps_def Consumer_reconnect_def Consumer_connect_def
        Consumer_resubscribe_def broker_no_consume_def broker_up_def)
  moreover have "map spec_delay [0..<2] = [1 * second, 2 * second]"
    by (simp add: spec_delay_def second_def upt_rec)
  ultimately show ?thesis by simp
qed

text \<open>
  C6, amended. A run of \<^verbatim>\<open>reconnect\<close> that passes the guard starts with the delay 1s and
  sleeps the delay before every attempt. In the publisher, and in the consumer as long
  as it is not stopped, an attempt whose \<^verbatim>\<open>connect\<close> fails replaces the delay \<open>d\<close>,
  whatever it is, by the smaller of \<open>2 * d\<close> and 30s, and the loop goes on to the next
  attempt: the delays of a run whose attempts all fail in \<^verbatim>\<open>connect\<close> are exactly 1s, 2s,
  4s, 8s, 16s, 30s, 30s, ..., a sequence that never decreases, and after any number of
  such failures the loop is still running. In the consumer, an attempt whose \<^verbatim>\<open>connect\<close>
  succeeds and whose \<^verbatim>\<open>resubscribe\<close> fails leaves the delay as it is and the consumer
  disconnected: the next attempt sleeps the same duration again. The publisher's loop
  ends with the first \<^verbatim>\<open>connect\<close> that succeeds, the consumer's with the first
  \<^verbatim>\<open>connect\<close> that succeeds and is followed by a \<^verbatim>\<open>resubscribe\<close> that succeeds; the
  consumer's loop also ends, without sleeping, when it reads \<^verbatim>\<open>stopped\<close> at the top of a
  turn.\<close>

theorem reconnect_delays:
  "(i < length (p_tasks s) \<and> p_tasks s ! i = PReconnect PGuard \<and> \<not> p_reconnecting s \<and>
    \<not> p_connected s \<and> (\<forall>b\<in>set bs. p_connect_fails b)
    \<longrightarrow> p_slept (prun (PRunReconnect i b0 # map (PRunReconnect i) bs) s)
          = p_slept s @ map spec_delay [0..<length bs]
        \<and> p_tasks (prun (PRunReconnect i b0 # map (PRunReconnect i) bs) s) ! i
          = PReconnect (PLoop (spec_delay (length bs))))
   \<and> (j < length (c_tasks t) \<and> c_tasks t ! j = CReconnect CGuard \<and> \<not> c_reconnecting t \<and>
      \<not> c_stopped t \<and> \<not> c_connected t \<and> (\<forall>b\<in>set cs. c_connect_fails b)
    \<longrightarrow> c_slept (crun (CRunReconnect j b0 # concat (map (c_two_steps j) cs)) t)
          = c_slept t @ map spec_delay [0..<length cs]
        \<and> c_tasks (crun (CRunReconnect j b0 # concat (map (c_two_steps j) cs)) t) ! j
          = CReconnect (CLoop (spec_delay (length cs))))
   \<and> (i < length (p_tasks s) \<and> p_tasks s ! i = PReconnect (PLoop d) \<and>
      \<not> p_connected s \<and> p_connect_fails b1
    \<longrightarrow> Publisher_reconnect i b1 s =
          s\<lparr>p_slept := p_slept s @ [d],
            p_tasks := (p_tasks s)[i := PReconnect (PLoop (min (2 * d) (30 * second)))]\<rparr>)
   \<and> (j < length (c_tasks t) \<and> c_tasks t ! j = CReconnect (CLoop d) \<and>
      \<not> c_stopped t \<and> \<not> c_connected t \<and> c_connect_fails b1
    \<longrightarrow> crun (c_two_steps j b1) t =
          t\<lparr>c_slept := c_slept t @ [d],
            c_tasks := (c_tasks t)[j := CReconnect (CLoop (min (2 * d) (30 * second)))]\<rparr>)
   \<and> (j < length (c_tasks t) \<and> c_tasks t ! j = CReconnect (CLoop d) \<and>
      \<not> c_stopped t \<and> \<not> c_connected t \<and> \<not> c_connect_fails b1 \<and>
      fst (Consumer_resubscribe b2 (crun (c_two_steps j b1) t)) \<noteq> None
    \<longrightarrow> c_tasks (crun (c_two_steps j b1 @ c_two_steps j b2) t) ! j = CReconnect (CLoop d)
        \<and> c_slept (crun (c_two_steps j b1 @ c_two_steps j b2) t) = c_slept t @ [d]
        \<and> \<not> c_connected (crun (c_two_steps j b1 @ c_two_steps j b2) t)
        \<and> \<not> c_stopped (crun (c_two_steps j b1 @ c_two_steps j b2) t))
   \<and> (j < length (c_tasks t) \<and> c_tasks t ! j = CReconnect (CLoop d) \<and>
      \<not> c_stopped t \<and> \<not> c_connected t \<and> \<not> c_connect_fails b1 \<and>
      fst (Consumer_resubscribe b2 (crun (c_two_steps j b1) t)) = None
    \<longrightarrow> c_tasks (crun (c_two_steps j b1 @ c_two_steps j b2) t) ! j = CDone
        \<and> c_slept (crun (c_two_steps j b1 @ c_two_steps j b2) t) = c_slept t @ [d]
        \<and> c_connected (crun (c_two_steps j b1 @ c_two_steps j b2) t)
        \<and> \<not> c_reconnecting (crun (c_two_steps j b1 @ c_two_steps j b2) t))
   \<and> (i < length (p_tasks s) \<and> p_tasks s ! i = PReconnect (PLoop d) \<and>
      \<not> p_connected s \<and> \<not> p_connect_fails b1
    \<longrightarrow> p_connected (Publisher_reconnect i b1 s)
        \<and> p_tasks (Publisher_reconnect i b1 s) ! i = PReconnect PDeferred
        \<and> p_slept (Publisher_reconnect i b1 s) = p_slept s @ [d]
        \<and> p_tasks (prun [PRunReconnect i b1, PRunReconnect i b2] s) ! i = PDone
        \<and> \<not> p_reconnecting (prun [PRunReconnect i b1, PRunReconnect i b2] s))
   \<and> (j < length (c_tasks t) \<and> c_tasks t ! j = CReconnect (CLoop d) \<and> c_stopped t
    \<longrightarrow> Consumer_reconnect j b1 t = t\<lparr>c_tasks := (c_tasks t)[j := CReconnect CDeferred]\<rparr>)
   \<and> map spec_delay [0..<7] =
       [1 * second, 2 * second, 4 * second, 8 * second, 16 * second, 30 * second, 30 * second]
   \<and> (\<forall>k. 5 \<le> k \<longrightarrow> spec_delay k = 30 * second)
   \<and> (\<forall>k. spec_delay k \<le> spec_delay (Suc k))"
proof -
  have 1: "p_slept (prun (PRunReconnect i b0 # map (PRunReconnect i) bs) s)
          = p_slept s @ map spec_delay [0..<length bs]
        \<and> p_tasks (prun (PRunReconnect i b0 # map (PRunReconnect i) bs) s) ! i
          = PReconnect (PLoop (spec_delay (length bs)))"
    if h: "i < length (p_tasks s) \<and> p_tasks s ! i = PReconnect PGuard \<and> \<not> p_reconnecting s \<and>
      \<not> p_connected s \<and> (\<forall>b\<in>set bs. p_connect_fails b)"
  proof -
    have "prun (PRunReconnect i b0 # map (PRunReconnect i) bs) s =
           s\<lparr>p_reconnecting := True,
             p_slept := p_slept s @ map spec_delay [0..<length bs],
             p_tasks := (p_tasks s)[i := PReconnect (PLoop (spec_delay (length bs)))]\<rparr>"
      using h by (intro p_reconnect_run) simp_all
    then show ?thesis using h by simp
  qed
  have 2: "c_slept (crun (CRunReconnect j b0 # concat (map (c_two_steps j) cs)) t)
          = c_slept t @ map spec_delay [0..<length cs]
        \<and> c_tasks (crun (CRunReconnect j b0 # concat (map (c_two_steps j) cs)) t) ! j
          = CReconnect (CLoop (spec_delay (length cs)))"
    if h: "j < length (c_tasks t) \<and> c_tasks t ! j = CReconnect CGuard \<and> \<not> c_reconnecting t \<and>
      \<not> c_stopped t \<and> \<not> c_connected t \<and> (\<forall>b\<in>set cs. c_connect_fails b)"
  proof -
    have "crun (CRunReconnect j b0 # concat (map (c_two_steps j) cs)) t =
           t\<lparr>c_reconnecting := True,
             c_slept := c_slept t @ map spec_delay [0..<length cs],
             c_tasks := (c_tasks t)[j := CReconnect (CLoop (spec_delay (length cs)))]\<rparr>"
      using h by (intro c_reconnect_run) simp_all
    then show ?thesis using h by simp
  qed
  have 3: "c_tasks (crun (c_two_steps j b1 @ c_two_steps j b2) t) ! j = CReconnect (CLoop d)
        \<and> c_slept (crun (c_two_steps j b1 @ c_two_steps j b2) t) = c_slept t @ [d]
        \<and> \<not> c_connected (crun (c_two_steps j b1 @ c_two_steps j b2) t)
        \<and> \<not> c_stopped (crun (c_two_steps j b1 @ c_two_steps j b2) t)"
    if h: "j < length (c_tasks t) \<and> c_tasks t ! j = CReconnect (CLoop d) \<and>
      \<not> c_stopped t \<and> \<not> c_connected t \<and> \<not> c_connect_fails b1 \<and>
      fst (Consumer_resubscribe b2 (crun (c_two_steps j b1) t)) \<noteq> None"
    using h by (intro c_turn_resubscribe_fails) simp_all
  have 4: "\<forall>k. 5 \<le> k \<longrightarrow> spec_delay k = 30 * second"
    by (simp add: spec_delay_capped)
  have 5: "p_connected (Publisher_reconnect i b1 s)
        \<and> p_tasks (Publisher_reconnect i b1 s) ! i = PReconnect PDeferred
        \<and> p_slept (Publisher_reconnect i b1 s) = p_slept s @ [d]
        \<and> p_tasks (prun [PRunReconnect i b1, PRunReconnect i b2] s) ! i = PDone
        \<and> \<not> p_reconnecting (prun [PRunReconnect i b1, PRunReconnect i b2] s)"
    if h: "i < length (p_tasks s) \<and> p_tasks s ! i = PReconnect (PLoop d) \<and>
      \<not> p_connected s \<and> \<not> p_connect_fails b1"
    using h
    by (auto simp: prun_def Publisher_reconnect_def Publisher_connect_def p_connect_fails_def
        nth_append)
  have 6: "Consumer_reconnect j b1 t = t\<lparr>c_tasks := (c_tasks t)[j := CReconnect CDeferred]\<rparr>"
    if h: "j < length (c_tasks t) \<and> c_tasks t ! j = CReconnect (CLoop d) \<and> c_stopped t"
    using h by (simp add: Consumer_reconnect_def)
  have 7: "\<forall>k. spec_delay k \<le> spec_delay (Suc k)"
    by (simp add: spec_delay_def second_def min_def)
  have 8: "Publisher_reconnect i b1 s =
          s\<lparr>p_slept := p_slept s @ [d],
            p_tasks := (p_tasks s)[i := PReconnect (PLoop (min (2 * d) (30 * second)))]\<rparr>"
    if h: "i < length (p_tasks s) \<and> p_tasks s ! i = PReconnect (PLoop d) \<and>
      \<not> p_connected s \<and> p_connect_fails b1"
    using h p_loop_step_fail[of i s d b1] by (simp add: next_backoff_min)
  have 9: "crun (c_two_steps j b1) t =
          t\<lparr>c_slept := c_slept t @ [d],
            c_tasks := (c_tasks t)[j := CReconnect (CLoop (min (2 * d) (30 * second)))]\<rparr>"
    if h: "j < length (c_tasks t) \<and> c_tasks t ! j = CReconnect (CLoop d) \<and>
      \<not> c_stopped t \<and> \<not> c_connected t \<and> c_connect_fails b1"
    using h c_loop_step_fail[of j t d b1] by (simp add: next_backoff_min)
  have 10: "c_tasks (crun (c_two_steps j b1 @ c_two_steps j b2) t) ! j = CDone
        \<and> c_slept (crun (c_two_steps j b1 @ c_two_steps j b2) t) = c_slept t @ [d]
        \<and> c_connected (crun (c_two_steps j b1 @ c_two_steps j b2) t)
        \<and> \<not> c_reconnecting (crun (c_two_steps j b1 @ c_two_steps j b2) t)"
    if h: "j < length (c_tasks t) \<and> c_tasks t ! j = CReconnect (CLoop d) \<and>
      \<not> c_stopped t \<and> \<not> c_connected t \<and> \<not> c_connect_fails b1 \<and>
      fst (Consumer_resubscribe b2 (crun (c_two_steps j b1) t)) = None"
    using h by (intro c_turn_resubscribe_ok) simp_all
  show ?thesis
    using 1 2 3 4 5 6 7 8 9 10 spec_delay_first by blast
qed

theorem reconnect_delays_witness:
  "p_slept (prun (PRunReconnect 0 broker_down
                   # map (PRunReconnect 0) [broker_down, broker_down, broker_down])
              (fst (NewPublisher ''amqp://broker'' ''events'' ''regions'' broker_down)))
     = [1 * second, 2 * second, 4 * second]
   \<and> p_slept (prun (PRunReconnect 0 broker_down
                   # map (PRunReconnect 0) [broker_down, broker_down, broker_down, broker_up])
              (fst (NewPublisher ''amqp://broker'' ''events'' ''regions'' broker_down)))
     = [1 * second, 2 * second, 4 * second, 8 * second]
   \<and> p_connected (prun (PRunReconnect 0 broker_down
                   # map (PRunReconnect 0) [broker_down, broker_down, broker_down, broker_up])
              (fst (NewPublisher ''amqp://broker'' ''events'' ''regions'' broker_down)))
   \<and> p_tasks (prun (PRunReconnect 0 broker_down
                   # map (PRunReconnect 0) [broker_down, broker_down, broker_down, broker_down])
              (fst (NewPublisher ''amqp://broker'' ''events'' ''regions'' broker_down)))
     = [PReconnect (PLoop (16 * second))]
   \<and> c_slept (crun (CRunReconnect 0 broker_down
                   # concat (map (c_two_steps 0) [broker_down, broker_down, broker_down]))
              (fst (NewConsumer ''amqp://broker'' ''events'' ''cities.q'' ''cities'' broker_down)))
     = [1 * second, 2 * second, 4 * second]
   \<and> c_slept (crun (c_two_steps 0 broker_up @ c_two_steps 0 broker_no_consume)
              (crun [CRunReconnect 0 broker_down]
                 (fst (NewConsumer ''amqp://broker'' ''events'' ''cities.q'' ''cities''
                         broker_down))))
     = [1 * second]
   \<and> c_tasks (crun (c_two_steps 0 broker_up @ c_two_steps 0 broker_no_consume)
              (crun [CRunReconnect 0 broker_down]
                 (fst (NewConsumer ''amqp://broker'' ''events'' ''cities.q'' ''cities''
                         broker_down)))) ! 0
     = CReconnect (CLoop (1 * second))
   \<and> c_slept (crun (c_two_steps 0 broker_down)
        (crun (c_two_steps 0 broker_up @ c_two_steps 0 broker_no_consume)
              (crun [CRunReconnect 0 broker_down]
                 (fst (NewConsumer ''amqp://broker'' ''events'' ''cities.q'' ''cities''
                         broker_down)))))
     = [1 * second, 1 * second]
   \<and> c_tasks (crun (c_two_steps 0 broker_down)
        (crun (c_two_steps 0 broker_up @ c_two_steps 0 broker_no_consume)
              (crun [CRunReconnect 0 broker_down]
                 (fst (NewConsumer ''amqp://broker'' ''events'' ''cities.q'' ''cities''
                         broker_down))))) ! 0
     = CReconnect (CLoop (2 * second))
   \<and> c_tasks (crun (c_two_steps 0 broker_up @ c_two_steps 0 broker_up)
              (crun [CRunReconnect 0 broker_down]
                 (fst (NewConsumer ''amqp://broker'' ''events'' ''cities.q'' ''cities''
                         broker_down)))) ! 0
     = CDone
   \<and> c_connected (crun (c_two_steps 0 broker_up @ c_two_steps 0 broker_up)
              (crun [CRunReconnect 0 broker_down]
                 (fst (NewConsumer ''amqp://broker'' ''events'' ''cities.q'' ''cities''
                         broker_down))))
   \<and> c_tasks (crun [CRunReconnect 0 broker_down, CCallClose, CRunReconnect 0 broker_up]
              (fst (NewConsumer ''amqp://broker'' ''events'' ''cities.q'' ''cities''
                      broker_down)))
     = [CReconnect CDeferred]"
proof -
  define s where "s = fst (NewPublisher ''amqp://broker'' ''events'' ''regions'' broker_down)"
  define t where
    "t = fst (NewConsumer ''amqp://broker'' ''events'' ''cities.q'' ''cities'' broker_down)"
  define u where "u = crun [CRunReconnect 0 broker_down] t"
  define v where "v = crun [CRunReconnect 0 broker_down, CCallClose] t"
  define w where "w = crun (c_two_steps 0 broker_up @ c_two_steps 0 broker_no_consume) u"
  define r where "r = prun (PRunReconnect 0 broker_down
                   # map (PRunReconnect 0) [broker_down, broker_down, broker_down]) s"
  have s: "s = \<lparr>p_connection = None, p_channel = None, p_exchangeName = ''events'',
       p_serviceName = ''regions'', p_connected = False, p_reconnecting = False,
       p_tasks = [PReconnect PGuard], p_open = [], p_next = 0, p_slept = []\<rparr>"
    by (simp add: s_def NewPublisher_def Publisher_connect_def broker_down_def)
  have t: "t = \<lparr>c_connection = None, c_channel = None, c_exchangeName = ''events'',
       c_queueName = ''cities.q'', c_serviceName = ''cities'', c_handlers = [],
       c_connected = False, c_reconnecting = False, c_stopChan = False, c_stopped = False,
       c_tasks = [CReconnect CGuard], c_open = [], c_next = 0, c_slept = [],
       c_binds = [], c_loops = []\<rparr>"
    by (simp add: t_def NewConsumer_def Consumer_connect_def broker_down_def)
  have u: "u = t\<lparr>c_reconnecting := True, c_tasks := [CReconnect (CLoop (1 * second))]\<rparr>"
    by (simp add: u_def t crun_def Consumer_reconnect_def)
  have v: "v = u\<lparr>c_stopped := True, c_stopChan := True\<rparr>"
    by (simp add: v_def u_def t crun_def Consumer_reconnect_def Consumer_Close_def)
  have w: "w = u\<lparr>c_connection := Some 0, c_channel := Some 0,
                 c_tasks := [CReconnect (CLoop (1 * second)), CMonitor 0],
                 c_open := [0], c_next := 1, c_slept := [1 * second]\<rparr>"
    by (simp add: w_def u t crun_def c_two_steps_def Consumer_reconnect_def Consumer_connect_def
        Consumer_resubscribe_def broker_no_consume_def broker_up_def)
  have fails: "p_connect_fails broker_down" "c_connect_fails broker_down"
    "\<not> c_connect_fails broker_up" "\<not> p_connect_fails broker_up"
    by (simp_all add: p_connect_fails_def c_connect_fails_def broker_down_def broker_up_def)
  have d: "map spec_delay [0..<length [broker_down, broker_down, broker_down]]
             = [1 * second, 2 * second, 4 * second]"
    "spec_delay (length [broker_down, broker_down, broker_down]) = 8 * second"
    by (simp_all add: spec_delay_def second_def upt_rec)
  have m: "min (2 * (8 * second)) (30 * second) = 16 * second"
    "min (2 * (1 * second)) (30 * second) = 2 * second"
    by (simp_all add: second_def)
  have hs: "0 < length (p_tasks s) \<and> p_tasks s ! 0 = PReconnect PGuard \<and> \<not> p_reconnecting s \<and>
      \<not> p_connected s \<and> (\<forall>b\<in>set [broker_down, broker_down, broker_down]. p_connect_fails b)"
    by (simp add: s fails)
  have a: "p_slept r = [1 * second, 2 * second, 4 * second]
         \<and> p_tasks r ! 0 = PReconnect (PLoop (8 * second))"
    using reconnect_delays [where i = 0 and s = s
        and bs = "[broker_down, broker_down, broker_down]" and ?b0.0 = broker_down,
        THEN conjunct1, THEN mp, OF hs] d
    unfolding r_def by (simp add: s)
  have r: "r = s\<lparr>p_reconnecting := True, p_slept := [1 * second, 2 * second, 4 * second],
                 p_tasks := [PReconnect (PLoop (8 * second))]\<rparr>"
    using p_reconnect_run [of 0 s "[broker_down, broker_down, broker_down]" broker_down] hs d
    unfolding r_def by (simp add: s)
  have hr: "0 < length (p_tasks r) \<and> p_tasks r ! 0 = PReconnect (PLoop (8 * second)) \<and>
      \<not> p_connected r \<and> \<not> p_connect_fails broker_up"
    by (simp add: r s fails)
  have a2: "p_connected (Publisher_reconnect 0 broker_up r)
        \<and> p_slept (Publisher_reconnect 0 broker_up r) = p_slept r @ [8 * second]"
    using reconnect_delays [where i = 0 and s = r and d = "8 * second" and ?b1.0 = broker_up,
        THEN conjunct2, THEN conjunct2, THEN conjunct2, THEN conjunct2, THEN conjunct2, THEN conjunct2, THEN conjunct1, THEN mp, OF hr]
    by simp
  have r2: "prun (PRunReconnect 0 broker_down
                   # map (PRunReconnect 0) [broker_down, broker_down, broker_down, broker_up]) s
           = Publisher_reconnect 0 broker_up r"
    by (simp add: r_def prun_def)
  have hr3: "0 < length (p_tasks r) \<and> p_tasks r ! 0 = PReconnect (PLoop (8 * second)) \<and>
      \<not> p_connected r \<and> p_connect_fails broker_down"
    by (simp add: r s fails)
  have a3: "Publisher_reconnect 0 broker_down r =
      r\<lparr>p_slept := p_slept r @ [8 * second],
        p_tasks := (p_tasks r)[0 := PReconnect (PLoop (min (2 * (8 * second)) (30 * second)))]\<rparr>"
    using reconnect_delays [where i = 0 and s = r and d = "8 * second" and ?b1.0 = broker_down,
        THEN conjunct2, THEN conjunct2, THEN conjunct1, THEN mp, OF hr3]
    by simp
  have r3: "prun (PRunReconnect 0 broker_down
                   # map (PRunReconnect 0) [broker_down, broker_down, broker_down, broker_down]) s
           = Publisher_reconnect 0 broker_down r"
    by (simp add: r_def prun_def)
  have ht: "0 < length (c_tasks t) \<and> c_tasks t ! 0 = CReconnect CGuard \<and> \<not> c_reconnecting t \<and>
      \<not> c_stopped t \<and> \<not> c_connected t \<and>
      (\<forall>b\<in>set [broker_down, broker_down, broker_down]. c_connect_fails b)"
    by (simp add: t fails)
  have b: "c_slept (crun (CRunReconnect 0 broker_down
                   # concat (map (c_two_steps 0) [broker_down, broker_down, broker_down])) t)
          = [1 * second, 2 * second, 4 * second]"
    using reconnect_delays [where j = 0 and t = t
        and cs = "[broker_down, broker_down, broker_down]" and ?b0.0 = broker_down,
        THEN conjunct2, THEN conjunct1, THEN mp, OF ht] d
    by (simp add: t)
  have rs: "fst (Consumer_resubscribe broker_no_consume (crun (c_two_steps 0 broker_up) u)) \<noteq> None"
    by (simp add: u t crun_def c_two_steps_def Consumer_reconnect_def Consumer_connect_def
        Consumer_resubscribe_def broker_no_consume_def broker_up_def)
  have hu: "0 < length (c_tasks u) \<and> c_tasks u ! 0 = CReconnect (CLoop (1 * second)) \<and>
      \<not> c_stopped u \<and> \<not> c_connected u \<and> \<not> c_connect_fails broker_up \<and>
      fst (Consumer_resubscribe broker_no_consume (crun (c_two_steps 0 broker_up) u)) \<noteq> None"
    using rs by (simp add: u t fails)
  have c: "c_tasks w ! 0 = CReconnect (CLoop (1 * second)) \<and> c_slept w = c_slept u @ [1 * second]"
    using reconnect_delays [where j = 0 and t = u and d = "1 * second"
        and ?b1.0 = broker_up and ?b2.0 = broker_no_consume,
        THEN conjunct2, THEN conjunct2, THEN conjunct2, THEN conjunct2, THEN conjunct1, THEN mp, OF hu]
    unfolding w_def by simp
  have hw: "0 < length (c_tasks w) \<and> c_tasks w ! 0 = CReconnect (CLoop (1 * second)) \<and>
      \<not> c_stopped w \<and> \<not> c_connected w \<and> c_connect_fails broker_down"
    by (simp add: w u t fails)
  have c2: "crun (c_two_steps 0 broker_down) w =
      w\<lparr>c_slept := c_slept w @ [1 * second],
        c_tasks := (c_tasks w)[0 := CReconnect (CLoop (min (2 * (1 * second)) (30 * second)))]\<rparr>"
    using reconnect_delays [where j = 0 and t = w and d = "1 * second"
        and ?b1.0 = broker_down,
        THEN conjunct2, THEN conjunct2, THEN conjunct2, THEN conjunct1, THEN mp, OF hw]
    by simp
  have ro: "fst (Consumer_resubscribe broker_up (crun (c_two_steps 0 broker_up) u)) = None"
    by (simp add: u t crun_def c_two_steps_def Consumer_reconnect_def Consumer_connect_def
        Consumer_resubscribe_def broker_up_def)
  have hu2: "0 < length (c_tasks u) \<and> c_tasks u ! 0 = CReconnect (CLoop (1 * second)) \<and>
      \<not> c_stopped u \<and> \<not> c_connected u \<and> \<not> c_connect_fails broker_up \<and>
      fst (Consumer_resubscribe broker_up (crun (c_two_steps 0 broker_up) u)) = None"
    using ro by (simp add: u t fails)
  have c3: "c_tasks (crun (c_two_steps 0 broker_up @ c_two_steps 0 broker_up) u) ! 0 = CDone
        \<and> c_connected (crun (c_two_steps 0 broker_up @ c_two_steps 0 broker_up) u)"
    using reconnect_delays [where j = 0 and t = u and d = "1 * second"
        and ?b1.0 = broker_up and ?b2.0 = broker_up,
        THEN conjunct2, THEN conjunct2, THEN conjunct2, THEN conjunct2, THEN conjunct2, THEN conjunct1, THEN mp, OF hu2]
    by simp
  have hv: "0 < length (c_tasks v) \<and> c_tasks v ! 0 = CReconnect (CLoop (1 * second)) \<and> c_stopped v"
    by (simp add: v u t)
  have e: "Consumer_reconnect 0 broker_up v = v\<lparr>c_tasks := (c_tasks v)[0 := CReconnect CDeferred]\<rparr>"
    using reconnect_delays [where j = 0 and t = v and d = "1 * second" and ?b1.0 = broker_up,
        THEN conjunct2, THEN conjunct2, THEN conjunct2, THEN conjunct2, THEN conjunct2, THEN conjunct2, THEN conjunct2, THEN conjunct1, THEN mp, OF hv]
    by simp
  have e2: "crun [CRunReconnect 0 broker_down, CCallClose, CRunReconnect 0 broker_up] t
              = Consumer_reconnect 0 broker_up v"
    by (simp add: v_def crun_def)
  show ?thesis
    unfolding s_def[symmetric] t_def[symmetric] u_def[symmetric] w_def[symmetric] r2 r3 e2
    using a a2 a3 b c c2 c3 e m unfolding r_def[symmetric] by (simp add: u t v w r s)
qed

subsection \<open>Resubscription\<close>

lemma bind_routes_ok:
  "bind_routes b ch routes binds = (None, binds') \<Longrightarrow>
     binds' = binds @ map (Pair ch) routes"
  by (induction routes arbitrary: binds) (fastforce split: if_splits)+

lemma resubscribe_ok:
  assumes "Consumer_resubscribe b s = (None, s')"
  shows "\<exists>ch. c_channel s = Some ch \<and> c_connected s \<and>
           s' = s\<lparr>c_binds := c_binds s @ map (Pair ch) (map fst (c_handlers s)),
                   c_loops := c_loops s @ [ch]\<rparr>"
  using assms
  by (auto simp: Consumer_resubscribe_def split: option.splits if_splits prod.splits
           dest!: bind_routes_ok)

lemma keys_step: "fst ` set (c_handlers s) \<subseteq> fst ` set (c_handlers (cstep e s))"
proof (cases e)
  case (CCallSubscribe k h b)
  have "set (map fst (c_handlers s)) \<subseteq> set (map fst (AList.update k h (c_handlers s)))"
    by (auto simp: update_keys)
  then show ?thesis using CCallSubscribe
    by (auto simp: Consumer_Subscribe_def Let_def split: option.splits)
next
  case (CRunReconnect i b)
  have a: "c_handlers t' = c_handlers t" if "Consumer_connect b t = (r, t')" for t t' r
    using that by (auto simp: Consumer_connect_def split: if_splits)
  have r: "c_handlers t' = c_handlers t" if "Consumer_resubscribe b t = (r, t')" for t t' r
    using that by (auto simp: Consumer_resubscribe_def split: option.splits prod.splits if_splits)
  have "c_handlers (Consumer_reconnect i b s) = c_handlers s"
    by (auto simp: Consumer_reconnect_def split: ctask.splits cpc.splits prod.splits option.splits
             dest!: a r)
  then show ?thesis using CRunReconnect by simp
qed (auto simp: Consumer_Close_def Consumer_monitor_closed_def Consumer_monitor_stopped_def Let_def
      split: option.splits ctask.splits)

lemma keys_run: "fst ` set (c_handlers s) \<subseteq> fst ` set (c_handlers (crun es s))"
proof (induction es arbitrary: s)
  case Nil
  show ?case by (simp add: crun_def)
next
  case (Cons e es)
  have "fst ` set (c_handlers (cstep e s)) \<subseteq> fst ` set (c_handlers (crun es (cstep e s)))"
    by (rule Cons.IH)
  then show ?case using keys_step[of s e] by (auto simp: crun_def)
qed

lemma key_subscribed: "k \<in> fst ` set (c_handlers (snd (Consumer_Subscribe b k h s)))"
proof -
  have "k \<in> set (map fst (AList.update k h (c_handlers s)))"
    by (simp add: update_keys)
  then show ?thesis
    by (auto simp: Consumer_Subscribe_def Let_def split: option.splits)
qed

lemma registry_keeps_keys:
  "CCallSubscribe k h b \<in> set es \<Longrightarrow> k \<in> fst ` set (c_handlers (crun es s))"
proof (induction es arbitrary: s)
  case Nil
  then show ?case by simp
next
  case (Cons e es)
  show ?case
  proof (cases "e = CCallSubscribe k h b")
    case True
    then have "k \<in> fst ` set (c_handlers (cstep e s))" by (simp add: key_subscribed)
    then have "k \<in> fst ` set (c_handlers (crun es (cstep e s)))"
      using keys_run[of "cstep e s" es] by blast
    then show ?thesis by (simp add: crun_def)
  next
    case False
    then have "CCallSubscribe k h b \<in> set es" using Cons.prems by simp
    then have "k \<in> fst ` set (c_handlers (crun es (cstep e s)))" by (rule Cons.IH)
    then show ?thesis by (simp add: crun_def)
  qed
qed

lemma reconnect_resubscribe_ok:
  assumes "i < length (c_tasks s)" "c_tasks s ! i = CReconnect (CResubscribe d)"
    "c_tasks (Consumer_reconnect i b s) ! i = CReconnect CDeferred"
  shows "\<exists>ch. c_channel s = Some ch \<and> c_connected s \<and>
           Consumer_reconnect i b s =
             s\<lparr>c_binds := c_binds s @ map (Pair ch) (map fst (c_handlers s)),
               c_loops := c_loops s @ [ch],
               c_tasks := (c_tasks s)[i := CReconnect CDeferred]\<rparr>"
proof (cases "Consumer_resubscribe b s")
  case (Pair r s')
  have t: "c_tasks s' = c_tasks s"
    using Pair by (auto simp: Consumer_resubscribe_def split: option.splits prod.splits if_splits)
  show ?thesis
  proof (cases r)
    case None
    then show ?thesis
      using resubscribe_ok[of b s s'] Pair assms(1,2)
      by (auto simp: Consumer_reconnect_def)
  next
    case (Some err)
    then have "c_tasks (Consumer_reconnect i b s) ! i = CReconnect (CMarkDisconnected d)"
      using Pair assms(1,2) t by (simp add: Consumer_reconnect_def)
    then show ?thesis using assms(3) by simp
  qed
qed

lemma reconnect_fresh_channel:
  assumes "i < length (c_tasks s)" "c_tasks s ! i = CReconnect (CSleep d)"
    "\<not> c_connected s" "\<not> c_connect_fails b"
    "c_tasks (crun [CRunReconnect i b, CRunReconnect i b'] s) ! i = CReconnect CDeferred"
  shows "c_channel (crun [CRunReconnect i b, CRunReconnect i b'] s) = Some (c_next s)
       \<and> c_loops (crun [CRunReconnect i b, CRunReconnect i b'] s) = c_loops s @ [c_next s]
       \<and> (\<forall>k. k \<in> fst ` set (c_handlers s) \<longrightarrow>
             (c_next s, k) \<in> set (c_binds (crun [CRunReconnect i b, CRunReconnect i b'] s)))"
proof -
  define s2 where "s2 = Consumer_reconnect i b s"
  have s2: "s2 = s\<lparr>c_slept := c_slept s @ [d],
                   c_connection := Some (c_next s), c_channel := Some (c_next s),
                   c_connected := True,
                   c_tasks := (c_tasks s)[i := CReconnect (CResubscribe d)] @ [CMonitor (c_next s)],
                   c_open := c_next s # c_open s,
                   c_next := Suc (c_next s)\<rparr>"
    unfolding s2_def using assms(1-4)
    by (auto simp: Consumer_reconnect_def Consumer_connect_def c_connect_fails_def
        nth_append list_update_append)
  have l: "i < length (c_tasks s2)" and n: "c_tasks s2 ! i = CReconnect (CResubscribe d)"
    using assms(1) by (simp_all add: s2 nth_append)
  have r: "crun [CRunReconnect i b, CRunReconnect i b'] s = Consumer_reconnect i b' s2"
    by (simp add: crun_def s2_def)
  have e: "c_tasks (Consumer_reconnect i b' s2) ! i = CReconnect CDeferred"
    using assms(5) r by simp
  obtain ch where ch: "c_channel s2 = Some ch"
    and eq: "Consumer_reconnect i b' s2 =
             s2\<lparr>c_binds := c_binds s2 @ map (Pair ch) (map fst (c_handlers s2)),
                c_loops := c_loops s2 @ [ch],
                c_tasks := (c_tasks s2)[i := CReconnect CDeferred]\<rparr>"
    using reconnect_resubscribe_ok[OF l n e] by blast
  have c: "ch = c_next s" using ch by (simp add: s2)
  show ?thesis
    unfolding r eq c by (auto simp: s2)
qed

text \<open>
  C8: the registry survives disconnection. Whenever a reconnecting goroutine of a
  consumer completes \<^verbatim>\<open>resubscribe\<close> successfully, after any schedule of events since
  construction, every routing key subscribed at any time in that schedule is bound on the
  channel the consumer holds, and one more goroutine running \<^verbatim>\<open>handleDeliveries\<close> has been
  started on that channel; no call by the application takes part. When the turn of the
  loop dials, the channel is the one just opened.\<close>

theorem resubscribe_rebinds_registry:
  "(\<forall>i d b. i < length (c_tasks (crun es (fst (NewConsumer url ex q sv b0)))) \<and>
       c_tasks (crun es (fst (NewConsumer url ex q sv b0))) ! i = CReconnect (CResubscribe d) \<and>
       c_tasks (Consumer_reconnect i b (crun es (fst (NewConsumer url ex q sv b0)))) ! i
         = CReconnect CDeferred
     \<longrightarrow> (\<exists>ch. c_channel (Consumer_reconnect i b (crun es (fst (NewConsumer url ex q sv b0))))
                 = Some ch \<and>
            (\<forall>k h b1. CCallSubscribe k h b1 \<in> set es \<longrightarrow>
               (ch, k) \<in> set (c_binds (Consumer_reconnect i b
                                          (crun es (fst (NewConsumer url ex q sv b0)))))) \<and>
            c_loops (Consumer_reconnect i b (crun es (fst (NewConsumer url ex q sv b0))))
              = c_loops (crun es (fst (NewConsumer url ex q sv b0))) @ [ch]))
   \<and> (\<forall>i d b b'. i < length (c_tasks s) \<and> c_tasks s ! i = CReconnect (CSleep d) \<and>
       \<not> c_connected s \<and> \<not> c_connect_fails b \<and>
       c_tasks (crun [CRunReconnect i b, CRunReconnect i b'] s) ! i = CReconnect CDeferred
     \<longrightarrow> c_channel (crun [CRunReconnect i b, CRunReconnect i b'] s) = Some (c_next s)
         \<and> c_loops (crun [CRunReconnect i b, CRunReconnect i b'] s) = c_loops s @ [c_next s]
         \<and> (\<forall>k. k \<in> fst ` set (c_handlers s) \<longrightarrow>
               (c_next s, k) \<in> set (c_binds (crun [CRunReconnect i b, CRunReconnect i b'] s))))"
proof -
  define t where "t = crun es (fst (NewConsumer url ex q sv b0))"
  have A: "\<exists>ch. c_channel (Consumer_reconnect i b t) = Some ch \<and>
            (\<forall>k h b1. CCallSubscribe k h b1 \<in> set es \<longrightarrow>
               (ch, k) \<in> set (c_binds (Consumer_reconnect i b t))) \<and>
            c_loops (Consumer_reconnect i b t) = c_loops t @ [ch]"
    if h: "i < length (c_tasks t) \<and> c_tasks t ! i = CReconnect (CResubscribe d) \<and>
       c_tasks (Consumer_reconnect i b t) ! i = CReconnect CDeferred" for i d b
  proof -
    have a: "i < length (c_tasks t)" "c_tasks t ! i = CReconnect (CResubscribe d)"
      "c_tasks (Consumer_reconnect i b t) ! i = CReconnect CDeferred"
      using h by simp_all
    obtain ch where ch: "c_channel t = Some ch"
      and eq: "Consumer_reconnect i b t =
               t\<lparr>c_binds := c_binds t @ map (Pair ch) (map fst (c_handlers t)),
                 c_loops := c_loops t @ [ch],
                 c_tasks := (c_tasks t)[i := CReconnect CDeferred]\<rparr>"
      using reconnect_resubscribe_ok[OF a] by blast
    have "(ch, k) \<in> set (c_binds (Consumer_reconnect i b t))"
      if "CCallSubscribe k h b1 \<in> set es" for k h b1
    proof -
      have "k \<in> fst ` set (c_handlers t)"
        unfolding t_def using that by (rule registry_keeps_keys)
      then show ?thesis by (auto simp: eq)
    qed
    then show ?thesis
      using ch eq by (intro exI[of _ ch]) auto
  qed
  have B: "c_channel (crun [CRunReconnect i b, CRunReconnect i b'] s) = Some (c_next s)
         \<and> c_loops (crun [CRunReconnect i b, CRunReconnect i b'] s) = c_loops s @ [c_next s]
         \<and> (\<forall>k. k \<in> fst ` set (c_handlers s) \<longrightarrow>
               (c_next s, k) \<in> set (c_binds (crun [CRunReconnect i b, CRunReconnect i b'] s)))"
    if h: "i < length (c_tasks s) \<and> c_tasks s ! i = CReconnect (CSleep d) \<and>
       \<not> c_connected s \<and> \<not> c_connect_fails b \<and>
       c_tasks (crun [CRunReconnect i b, CRunReconnect i b'] s) ! i = CReconnect CDeferred"
    for i d b b'
    using h by (intro reconnect_fresh_channel[of i s d b b']) simp_all
  show ?thesis
    unfolding t_def[symmetric] using A B by blast
qed

theorem resubscribe_rebinds_registry_witness:
  "c_tasks (crun [CCallSubscribe ''region.created'' accept broker_up,
                  CCallSubscribe ''city.updated'' reject broker_up,
                  CBrokerDrop 0, CMonitorClosed 0, CRunReconnect 1 broker_up,
                  CRunReconnect 1 broker_up, CRunReconnect 1 broker_up]
              (fst (NewConsumer ''amqp://broker'' ''events'' ''cities.q'' ''cities'' broker_up))) ! 1
     = CReconnect (CResubscribe (1 * second))
   \<and> c_channel (Consumer_reconnect 1 broker_up
        (crun [CCallSubscribe ''region.created'' accept broker_up,
               CCallSubscribe ''city.updated'' reject broker_up,
               CBrokerDrop 0, CMonitorClosed 0, CRunReconnect 1 broker_up,
               CRunReconnect 1 broker_up, CRunReconnect 1 broker_up]
           (fst (NewConsumer ''amqp://broker'' ''events'' ''cities.q'' ''cities'' broker_up))))
     = Some 1
   \<and> (1, ''region.created'') \<in> set (c_binds (Consumer_reconnect 1 broker_up
        (crun [CCallSubscribe ''region.created'' accept broker_up,
               CCallSubscribe ''city.updated'' reject broker_up,
               CBrokerDrop 0, CMonitorClosed 0, CRunReconnect 1 broker_up,
               CRunReconnect 1 broker_up, CRunReconnect 1 broker_up]
           (fst (NewConsumer ''amqp://broker'' ''events'' ''cities.q'' ''cities'' broker_up)))))
   \<and> (1, ''city.updated'') \<in> set (c_binds (Consumer_reconnect 1 broker_up
        (crun [CCallSubscribe ''region.created'' accept broker_up,
               CCallSubscribe ''city.updated'' reject broker_up,
               CBrokerDrop 0, CMonitorClosed 0, CRunReconnect 1 broker_up,
               CRunReconnect 1 broker_up, CRunReconnect 1 broker_up]
           (fst (NewConsumer ''amqp://broker'' ''events'' ''cities.q'' ''cities'' broker_up)))))
   \<and> c_loops (Consumer_reconnect 1 broker_up
        (crun [CCallSubscribe ''region.created'' accept broker_up,
               CCallSubscribe ''city.updated'' reject broker_up,
               CBrokerDrop 0, CMonitorClosed 0, CRunReconnect 1 broker_up,
               CRunReconnect 1 broker_up, CRunReconnect 1 broker_up]
           (fst (NewConsumer ''amqp://broker'' ''events'' ''cities.q'' ''cities'' broker_up))))
     = [0, 1]"
proof -
  define es where "es = [CCallSubscribe ''region.created'' accept broker_up,
               CCallSubscribe ''city.updated'' reject broker_up,
               CBrokerDrop 0, CMonitorClosed 0, CRunReconnect 1 broker_up,
               CRunReconnect 1 broker_up, CRunReconnect 1 broker_up]"
  define t where
    "t = crun es (fst (NewConsumer ''amqp://broker'' ''events'' ''cities.q'' ''cities'' broker_up))"
  have c0: "fst (NewConsumer ''amqp://broker'' ''events'' ''cities.q'' ''cities'' broker_up) =
      \<lparr>c_connection = Some 0, c_channel = Some 0, c_exchangeName = ''events'',
       c_queueName = ''cities.q'', c_serviceName = ''cities'', c_handlers = [],
       c_connected = True, c_reconnecting = False, c_stopChan = False, c_stopped = False,
       c_tasks = [CMonitor 0], c_open = [0], c_next = 1, c_slept = [],
       c_binds = [], c_loops = []\<rparr>"
    by (simp add: NewConsumer_def Consumer_connect_def broker_up_def)
  have t: "t = \<lparr>c_connection = Some 1, c_channel = Some 1, c_exchangeName = ''events'',
       c_queueName = ''cities.q'', c_serviceName = ''cities'',
       c_handlers = [(''region.created'', accept), (''city.updated'', reject)],
       c_connected = True, c_reconnecting = True, c_stopChan = False, c_stopped = False,
       c_tasks = [CDone, CReconnect (CResubscribe (1 * second)), CMonitor 1],
       c_open = [1], c_next = 2, c_slept = [1 * second],
       c_binds = [(0, ''region.created''), (0, ''city.updated'')], c_loops = [0]\<rparr>"
    unfolding t_def es_def c0
    by (simp add: crun_def Consumer_Subscribe_def Consumer_monitor_closed_def
        Consumer_reconnect_def Consumer_connect_def broker_up_def)
  have r: "Consumer_reconnect 1 broker_up t =
      t\<lparr>c_binds := [(0, ''region.created''), (0, ''city.updated''),
                    (1, ''region.created''), (1, ''city.updated'')],
        c_loops := [0, 1],
        c_tasks := [CDone, CReconnect CDeferred, CMonitor 1]\<rparr>"
    by (simp add: t Consumer_reconnect_def Consumer_resubscribe_def broker_up_def)
  have h: "1 < length (c_tasks t) \<and> c_tasks t ! 1 = CReconnect (CResubscribe (1 * second)) \<and>
       c_tasks (Consumer_reconnect 1 broker_up t) ! 1 = CReconnect CDeferred"
    unfolding r by (simp add: t)
  have m: "CCallSubscribe ''region.created'' accept broker_up \<in> set es"
    "CCallSubscribe ''city.updated'' reject broker_up \<in> set es"
    by (simp_all add: es_def)
  obtain ch where ch: "c_channel (Consumer_reconnect 1 broker_up t) = Some ch"
    and b: "\<forall>k h b1. CCallSubscribe k h b1 \<in> set es \<longrightarrow>
               (ch, k) \<in> set (c_binds (Consumer_reconnect 1 broker_up t))"
    and l: "c_loops (Consumer_reconnect 1 broker_up t) = c_loops t @ [ch]"
    using resubscribe_rebinds_registry [of es "''amqp://broker''" "''events''" "''cities.q''"
        "''cities''" broker_up t, folded t_def] h by blast
  have ch1: "ch = 1" using ch unfolding r by (simp add: t)
  have lt: "c_loops t = [0]" by (simp add: t)
  have "c_channel (Consumer_reconnect 1 broker_up t) = Some 1"
    "(1, ''region.created'') \<in> set (c_binds (Consumer_reconnect 1 broker_up t))"
    "(1, ''city.updated'') \<in> set (c_binds (Consumer_reconnect 1 broker_up t))"
    "c_loops (Consumer_reconnect 1 broker_up t) = [0, 1]"
    using ch b l m ch1 lt by auto
  then show ?thesis
    using h unfolding t_def es_def by simp
qed

end
